theory Spec2Isabelle
  imports Main "HOL-Library.Word"
begin

unbundle bit_operations_syntax

section \<open>The program\<close>

subsection \<open>Frame codec: defaultFrameReader.readFrame\<close>

text \<open>
  Go's fixed-width integers are words: \<open>byte\<close> is \<open>uint8\<close>, the size field and the packed
  \<open>cmdAndFlags\<close> are \<open>uint32\<close>, the request id is \<open>uint64\<close>.

  Modelled from the spec: the declarations of the types \<open>Cmd\<close> and \<open>FrameFlag\<close> are not in
  server.go. The spec has \<open>cmd: u24\<close> and \<open>flags: u8\<close>, "packed into one u32 on the wire";
  the conversions \<open>Cmd(cmdAndFlags & 0xffffff)\<close> and \<open>FrameFlag(cmdAndFlags >> 24)\<close> keep
  the command in a 32-bit word and the flags in a byte.
\<close>

type_synonym byte = "8 word"
type_synonym Cmd = "32 word"
type_synonym FrameFlag = "8 word"

text \<open>
  Byte slices obtained from \<open>make\<close> live in a store of backing arrays; a slice is the
  index of its array. \<open>make([]byte, n)\<close> appends a zeroed array of \<open>n\<close> bytes, so the
  address it returns names no array of the store it was given. Memory is not bounded: an
  allocation always succeeds.
\<close>

type_synonym addr = nat
type_synonym heap = "byte list list"

definition make_bytes :: "nat \<Rightarrow> heap \<Rightarrow> addr \<times> heap" where
  "make_bytes n h = (length h, h @ [replicate n 0])"

datatype error = ErrIO | ErrInvalidFrameSize | ErrFrameTooLarge

record Frame =
  RequestID :: "64 word"
  Cmd :: Cmd
  Flags :: FrameFlag
  Payload :: addr

text \<open>
  \<open>defaultFrameReader\<close>: the embedded \<open>*Reader\<close> is represented by the bytes the
  connection has still to deliver, \<open>rbuf\<close> is the 16-byte header array of the struct, and
  \<open>maxFrameSize\<close> is a Go \<open>int\<close> (32 or 64 bits wide, depending on the platform), kept
  as a mathematical integer; the conversion \<open>uint32(maxFrameSize)\<close> is reduction modulo
  \<open>2 ^ 32\<close> at either width, which is \<open>word_of_int\<close>. The context field is only handed
  on to the stream table and is left out.
\<close>

record defaultFrameReader =
  Reader :: "byte list"
  rbuf :: "byte list"
  maxFrameSize :: int

text \<open>
  Modelled from the spec: \<open>Reader.ReadBytes\<close> is not in server.go (the spec lists concrete
  byte I/O as an external collaborator and only says that \<open>readFrame\<close> "reads exactly 16
  header bytes", then the payload bytes, and fails "with the underlying I/O error on short
  read"). \<open>ReadBytes r n\<close> fills a buffer of length \<open>n\<close>: it delivers the next \<open>n\<close> bytes of
  the connection, or the I/O error when the connection ends before that (what was left is
  consumed then).
\<close>

definition ReadBytes :: "byte list \<Rightarrow> nat \<Rightarrow> (error + byte list) \<times> byte list" where
  "ReadBytes r n = (if n \<le> length r then (Inr (take n r), drop n r) else (Inl ErrIO, []))"

text \<open>
  \<open>binary.BigEndian.Uint32\<close> and \<open>Uint64\<close> of the Go standard library:
  \<open>uint32(b[3]) | uint32(b[2])<<8 | uint32(b[1])<<16 | uint32(b[0])<<24\<close>, and the same
  over eight bytes. They panic on a slice shorter than 4 (8) bytes; \<open>readFrame\<close> applies
  them to \<open>header\<close>, \<open>header[4:]\<close> and \<open>header[12:]\<close> of the 16-byte array only.
\<close>

definition Uint32 :: "byte list \<Rightarrow> 32 word" where
  "Uint32 b = ucast (b ! 3) OR push_bit 8 (ucast (b ! 2)) OR push_bit 16 (ucast (b ! 1))
     OR push_bit 24 (ucast (b ! 0))"

definition Uint64 :: "byte list \<Rightarrow> 64 word" where
  "Uint64 b = ucast (b ! 7) OR push_bit 8 (ucast (b ! 6)) OR push_bit 16 (ucast (b ! 5))
     OR push_bit 24 (ucast (b ! 4)) OR push_bit 32 (ucast (b ! 3)) OR push_bit 40 (ucast (b ! 2))
     OR push_bit 48 (ucast (b ! 1)) OR push_bit 56 (ucast (b ! 0))"

text \<open>
  \<open>readFrame\<close>, statement by statement. The result is the pair \<open>(*Frame, error)\<close> as a sum
  (the frame is \<open>nil\<close> whenever the error is not), with the reader and the store after the
  call.
\<close>

definition readFrame ::
  "defaultFrameReader \<Rightarrow> heap \<Rightarrow> (error + Frame) \<times> defaultFrameReader \<times> heap" where
  "readFrame dfr h =
     (case ReadBytes (Reader dfr) 16 of
        (Inl err, r1) \<Rightarrow> (Inl err, dfr\<lparr>Reader := r1\<rparr>, h)
      | (Inr header, r1) \<Rightarrow>
          (let dfr1 = dfr\<lparr>Reader := r1, rbuf := header\<rparr>;
               size = Uint32 header;
               requestID = Uint64 (drop 4 header);
               cmdAndFlags = Uint32 (drop 12 header);
               cmd = cmdAndFlags AND 0xffffff;
               flags = (ucast (drop_bit 24 cmdAndFlags) :: FrameFlag)
           in if maxFrameSize dfr > 0 \<and> size > word_of_int (maxFrameSize dfr)
              then (Inl ErrFrameTooLarge, dfr1, h)
              else if size < 12 then (Inl ErrInvalidFrameSize, dfr1, h)
              else
                (case make_bytes (unat (size - 12)) h of
                   (payload, h1) \<Rightarrow>
                     (case ReadBytes r1 (unat (size - 12)) of
                        (Inl err, r2) \<Rightarrow> (Inl err, dfr1\<lparr>Reader := r2\<rparr>, h1)
                      | (Inr bytes, r2) \<Rightarrow>
                          (Inr \<lparr>RequestID = requestID, Cmd = cmd, Flags = flags,
                                Payload = payload\<rparr>,
                           dfr1\<lparr>Reader := r2\<rparr>, h1[payload := bytes])))))"

text \<open>
  The reading of the wire format the spec gives in words: a field is the big-endian number
  of its bytes, most significant byte first.
\<close>

definition be_nat :: "byte list \<Rightarrow> nat" where
  "be_nat bs = foldl (\<lambda>acc b. acc * 256 + unat b) 0 bs"

definition wire_size :: "byte list \<Rightarrow> nat" where
  "wire_size w = be_nat (take 4 w)"

definition wire_requestID :: "byte list \<Rightarrow> nat" where
  "wire_requestID w = be_nat (take 8 (drop 4 w))"

definition wire_cmdAndFlags :: "byte list \<Rightarrow> nat" where
  "wire_cmdAndFlags w = be_nat (take 4 (drop 12 w))"

subsection \<open>Stream multiplexing: defaultFrameReader.ReadFrame\<close>

text \<open>
  \<open>ConnStreams\<close>, \<open>Stream\<close> and the methods \<open>IsRst\<close>, \<open>GetStream\<close>, \<open>ResetByPeer\<close>,
  \<open>CreateOrGetStream\<close>, \<open>TryBind\<close>, \<open>AddInFrame\<close> and \<open>Done\<close> are not in server.go.
  \<open>ReadFrame\<close> takes them as a parameter: \<open>'cs\<close> is the state of the stream table with
  all its streams, \<open>'s\<close> a reference to one stream (\<open>None\<close> is the \<open>nil\<close> stream);
  a method that changes a stream returns the new state. \<open>Done s cs\<close> tells whether the
  channel \<open>s.Done()\<close> is closed in \<open>cs\<close>.
\<close>

record ('cs, 's) StreamOps =
  IsRst :: "FrameFlag \<Rightarrow> bool"
  GetStream :: "'cs \<Rightarrow> 64 word \<Rightarrow> FrameFlag \<Rightarrow> 's option"
  ResetByPeer :: "'s \<Rightarrow> 'cs \<Rightarrow> 'cs"
  CreateOrGetStream :: "'cs \<Rightarrow> 64 word \<Rightarrow> FrameFlag \<Rightarrow> ('s \<times> bool) \<times> 'cs"
  TryBind :: "'s \<Rightarrow> Frame \<Rightarrow> 'cs \<Rightarrow> bool \<times> 'cs"
  AddInFrame :: "'s \<Rightarrow> Frame \<Rightarrow> 'cs \<Rightarrow> bool \<times> 'cs"
  Done :: "'s \<Rightarrow> 'cs \<Rightarrow> bool"

text \<open>
  \<open>ReadFrame\<close>: every path through the body of the inner \<open>for\<close> ends in \<open>return\<close> or in
  \<open>goto start\<close>, so the function is one loop over the frames of the wire. The result is
  \<open>None\<close> when the call never returns: the receive \<open><-s.Done()\<close> on a channel that is
  not closed blocks, and within one call nothing closes it. The recursion ends because
  each frame read takes at least its 16 header bytes off the finite wire.
\<close>

function ReadFrame ::
  "('cs, 's) StreamOps \<Rightarrow> defaultFrameReader \<Rightarrow> heap \<Rightarrow> 'cs \<Rightarrow>
   ((error + Frame) \<times> defaultFrameReader \<times> heap \<times> 'cs) option" where
  "ReadFrame ops dfr h cs =
     (case readFrame dfr h of
        (Inl err, dfr1, h1) \<Rightarrow> Some (Inl err, dfr1, h1, cs)
      | (Inr f, dfr1, h1) \<Rightarrow>
          if IsRst ops (Flags f) then
            (case GetStream ops cs (RequestID f) (Flags f) of
               None \<Rightarrow> ReadFrame ops dfr1 h1 cs
             | Some s \<Rightarrow> ReadFrame ops dfr1 h1 (ResetByPeer ops s cs))
          else
            (case CreateOrGetStream ops cs (RequestID f) (Flags f) of
               ((s, loaded), cs1) \<Rightarrow>
                 (case TryBind ops s f cs1 of
                    (True, cs2) \<Rightarrow> Some (Inr f, dfr1, h1, cs2)
                  | (False, cs2) \<Rightarrow>
                      (case AddInFrame ops s f cs2 of
                         (True, cs3) \<Rightarrow> ReadFrame ops dfr1 h1 cs3
                       | (False, cs3) \<Rightarrow>
                           if Done ops s cs3 then ReadFrame ops dfr1 h1 cs3 else None))))"
  by pat_completeness auto
termination
proof (relation "measure (\<lambda>(ops, dfr, h, cs). length (Reader dfr))")
  have consumes: "length (Reader dfr1) < length (Reader dfr)"
    if "readFrame dfr h = (Inr f, dfr1, h1)" for dfr h f dfr1 h1
    using that
    by (auto simp: readFrame_def ReadBytes_def make_bytes_def Let_def
        split: if_splits prod.splits sum.splits)
  show "wf (measure (\<lambda>(ops, dfr, h, cs). length (Reader dfr)))" by simp
  show "((ops, dfr1, h1, cs), ops, dfr, h, cs) \<in> measure (\<lambda>(ops, dfr, h, cs). length (Reader dfr))"
    if "(x, y) = readFrame dfr h" "x = Inr f" "(dfr1, h1) = y"
    for ops :: "('cs, 's) StreamOps" and dfr h cs x y f dfr1 h1
    using that consumes [of dfr h f dfr1 h1] by simp
  show "((ops, dfr1, h1, ResetByPeer ops s cs), ops, dfr, h, cs)
      \<in> measure (\<lambda>(ops, dfr, h, cs). length (Reader dfr))"
    if "(x, y) = readFrame dfr h" "x = Inr f" "(dfr1, h1) = y"
    for ops :: "('cs, 's) StreamOps" and dfr h cs x y f dfr1 h1 s
    using that consumes [of dfr h f dfr1 h1] by simp
  show "((ops, dfr1, h1, cs3), ops, dfr, h, cs) \<in> measure (\<lambda>(ops, dfr, h, cs). length (Reader dfr))"
    if "(x, y) = readFrame dfr h" "x = Inr f" "(dfr1, h1) = y"
    for ops :: "('cs, 's) StreamOps" and dfr h cs x y f dfr1 h1 cs3
    using that consumes [of dfr h f dfr1 h1] by simp
  show "((ops, dfr1, h1, cs3), ops, dfr, h, cs) \<in> measure (\<lambda>(ops, dfr, h, cs). length (Reader dfr))"
    if "(x, y) = readFrame dfr h" "x = Inr f" "(dfr1, h1) = y"
    for ops :: "('cs, 's) StreamOps" and dfr h cs x y f dfr1 h1 cs3
    using that consumes [of dfr h f dfr1 h1] by simp
qed

declare ReadFrame.simps [simp del]

text \<open>
  Modelled from the spec: the stream table and the streams, which are missing from
  server.go, as section 3 and section 4.2 of the spec describe them. A table maps a request
  id to its stream ("at most one stream per requestID per connection"), and a stream is
  referred to by its request id. A stream has one of the four states, knows whether a
  handler consumer is bound to it (\<open>TryBind\<close> "is an at-most-once transition", later
  attempts "return false"), has a FIFO queue of inbound continuation frames, and records
  that its consumers were woken with the reset sentinel (\<open>ResetByPeer\<close> "sets Reset,
  drains pending consumers with a sentinel, and is idempotent"). \<open>AddInFrame\<close> fails when
  "the stream is already Reset/Closed"; \<open>Done\<close> is the terminal signal, raised for a
  stream that is \<open>Closed\<close> (or gone from the table). A stream created for a frame without
  the \<open>STREAM\<close> bit expects no further inbound frame ("single-frame", "created-and-closed
  in one step"): it starts half-closed. The bit positions of the flags are
  "implementation-defined", so the masks \<open>rst\<close> and \<open>strm\<close> are parameters.
\<close>

datatype StreamState = Open | HalfClosed | Reset | Closed

record Stream =
  state :: StreamState
  bound :: bool
  inFrames :: "Frame list"
  notified :: bool

type_synonym ConnStreams = "64 word \<Rightarrow> Stream option"

definition spec_IsRst :: "FrameFlag \<Rightarrow> FrameFlag \<Rightarrow> bool" where
  "spec_IsRst rst flags = (flags AND rst \<noteq> 0)"

definition spec_GetStream :: "ConnStreams \<Rightarrow> 64 word \<Rightarrow> FrameFlag \<Rightarrow> 64 word option" where
  "spec_GetStream cs requestID flags =
     (case cs requestID of None \<Rightarrow> None | Some st \<Rightarrow> Some requestID)"

definition spec_ResetByPeer :: "64 word \<Rightarrow> ConnStreams \<Rightarrow> ConnStreams" where
  "spec_ResetByPeer s cs =
     (case cs s of
        None \<Rightarrow> cs
      | Some st \<Rightarrow> cs(s \<mapsto> st\<lparr>state := Reset, notified := True\<rparr>))"

definition spec_CreateOrGetStream ::
  "FrameFlag \<Rightarrow> ConnStreams \<Rightarrow> 64 word \<Rightarrow> FrameFlag \<Rightarrow> (64 word \<times> bool) \<times> ConnStreams" where
  "spec_CreateOrGetStream strm cs requestID flags =
     (case cs requestID of
        Some st \<Rightarrow> ((requestID, True), cs)
      | None \<Rightarrow>
          ((requestID, False),
           cs(requestID \<mapsto> \<lparr>state = (if flags AND strm \<noteq> 0 then Open else HalfClosed),
                            bound = False, inFrames = [], notified = False\<rparr>)))"

definition spec_TryBind :: "64 word \<Rightarrow> Frame \<Rightarrow> ConnStreams \<Rightarrow> bool \<times> ConnStreams" where
  "spec_TryBind s f cs =
     (case cs s of
        None \<Rightarrow> (False, cs)
      | Some st \<Rightarrow> if bound st then (False, cs) else (True, cs(s \<mapsto> st\<lparr>bound := True\<rparr>)))"

definition spec_AddInFrame :: "64 word \<Rightarrow> Frame \<Rightarrow> ConnStreams \<Rightarrow> bool \<times> ConnStreams" where
  "spec_AddInFrame s f cs =
     (case cs s of
        None \<Rightarrow> (False, cs)
      | Some st \<Rightarrow>
          if state st = Reset \<or> state st = Closed then (False, cs)
          else (True, cs(s \<mapsto> st\<lparr>inFrames := inFrames st @ [f]\<rparr>)))"

definition spec_Done :: "64 word \<Rightarrow> ConnStreams \<Rightarrow> bool" where
  "spec_Done s cs = (case cs s of None \<Rightarrow> True | Some st \<Rightarrow> state st = Closed)"

definition spec_streams :: "FrameFlag \<Rightarrow> FrameFlag \<Rightarrow> (ConnStreams, 64 word) StreamOps" where
  "spec_streams rst strm =
     \<lparr>IsRst = spec_IsRst rst, GetStream = spec_GetStream, ResetByPeer = spec_ResetByPeer,
      CreateOrGetStream = spec_CreateOrGetStream strm, TryBind = spec_TryBind,
      AddInFrame = spec_AddInFrame, Done = spec_Done\<rparr>"

subsection \<open>Outcomes of a call\<close>

text \<open>
  A call returns, or it is aborted by a panic or by a fatal error of the runtime, or it
  blocks. The model runs one call at a time, so a call that blocks on a lock or on a
  channel stays blocked: no other goroutine is there to release it. An outcome carries the
  state at the point where the call ended.
\<close>

datatype abort =
  PanicNilHandler
  | PanicMultipleRegistrations Cmd
  | PanicCloseOfClosedChannel
  | FatalUnlockOfUnlockedMutex

datatype 'a outcome = Returns 'a | Aborts abort 'a | Blocks 'a

subsection \<open>Request multiplexer: ServeMux\<close>

text \<open>
  \<open>sync.RWMutex\<close> of the Go standard library, for one goroutine at a time: the lock has a
  writer or a number of readers. \<open>Lock\<close> waits until nobody holds the lock, \<open>RLock\<close>
  until no writer does (\<open>None\<close>: the call blocks); \<open>Unlock\<close> and \<open>RUnlock\<close> of a lock
  that is not held are fatal errors of the runtime (\<open>None\<close>).
\<close>

record RWMutex =
  writer :: bool
  readers :: nat

definition Lock :: "RWMutex \<Rightarrow> RWMutex option" where
  "Lock l = (if writer l \<or> 0 < readers l then None else Some (l\<lparr>writer := True\<rparr>))"

definition Unlock :: "RWMutex \<Rightarrow> RWMutex option" where
  "Unlock l = (if writer l then Some (l\<lparr>writer := False\<rparr>) else None)"

definition RLock :: "RWMutex \<Rightarrow> RWMutex option" where
  "RLock l = (if writer l then None else Some (l\<lparr>readers := readers l + 1\<rparr>))"

definition RUnlock :: "RWMutex \<Rightarrow> RWMutex option" where
  "RUnlock l = (if readers l = 0 then None else Some (l\<lparr>readers := readers l - 1\<rparr>))"

text \<open>
  Modelled from the spec: \<open>HandlerWithMW\<close> is not in server.go; the spec calls the
  middleware chain an external collaborator, and \<open>Handle\<close> stores the handler wrapped with
  the middleware it was given. The wrapped handler is the pair of both. A \<open>Handler\<close> is
  an interface value: \<open>None\<close> is the \<open>nil\<close> handler.
\<close>

datatype ('h, 'mw) wrapped = HandlerWithMW 'h "'mw list"

text \<open>
  \<open>ServeMux\<close>: the lock \<open>mu\<close> and the table \<open>m\<close>, which is \<open>nil\<close> (\<open>None\<close>) until
  the first registration; reading a \<open>nil\<close> map finds nothing.
\<close>

record ('h, 'mw) ServeMux =
  mux_mu :: RWMutex
  mux_m :: "(Cmd \<Rightarrow> ('h, 'mw) wrapped option) option"

definition NewServeMux :: "('h, 'mw) ServeMux" where
  "NewServeMux = \<lparr>mux_mu = \<lparr>writer = False, readers = 0\<rparr>, mux_m = None\<rparr>"

definition lookup :: "(Cmd \<Rightarrow> 'v option) option \<Rightarrow> Cmd \<Rightarrow> 'v option" where
  "lookup t cmd = (case t of None \<Rightarrow> None | Some t' \<Rightarrow> t' cmd)"

text \<open>
  \<open>Handle\<close>. The deferred \<open>mux.mu.Unlock()\<close> runs when the function returns and when it
  panics; at both points the lock is the one taken at entry.
\<close>

definition Handle ::
  "('h, 'mw) ServeMux \<Rightarrow> Cmd \<Rightarrow> 'h option \<Rightarrow> 'mw list \<Rightarrow> ('h, 'mw) ServeMux outcome" where
  "Handle mux cmd handler middleware =
     (case Lock (mux_mu mux) of
        None \<Rightarrow> Blocks mux
      | Some l \<Rightarrow>
          (let mux1 = mux\<lparr>mux_mu := l\<rparr>;
               deferred = (\<lambda>ending mux'.
                 case Unlock (mux_mu mux') of
                   None \<Rightarrow> Aborts FatalUnlockOfUnlockedMutex mux'
                 | Some l' \<Rightarrow> ending (mux'\<lparr>mux_mu := l'\<rparr>))
           in case handler of
                None \<Rightarrow> deferred (Aborts PanicNilHandler) mux1
              | Some hdl \<Rightarrow>
                  if lookup (mux_m mux1) cmd \<noteq> None
                  then deferred (Aborts (PanicMultipleRegistrations cmd)) mux1
                  else
                    (let t = (case mux_m mux1 of None \<Rightarrow> Map.empty | Some t' \<Rightarrow> t');
                         mux2 = mux1\<lparr>mux_m := Some (t(cmd \<mapsto> HandlerWithMW hdl middleware))\<rparr>
                     in deferred Returns mux2)))"

text \<open>
  Modelled from the spec: \<open>RequestFrame\<close> and its \<open>Close\<close> are not in server.go. A request
  frame is the opening frame of a request with "a reference to its owning stream";
  closing it releases the stream ("they must close it (releasing the stream) when done").
  The model keeps the frame and whether it has been closed.
\<close>

record RequestFrame =
  frame :: Frame
  closed :: bool

definition Close :: "RequestFrame \<Rightarrow> RequestFrame" where
  "Close r = r\<lparr>closed := True\<rparr>"

text \<open>
  \<open>ServeMux.ServeQRPC\<close>. What a handler does is not part of the program; a call
  \<open>h.ServeQRPC(w, r)\<close> is recorded in the list of handler calls. The branch for a command
  without handler returns without \<open>RUnlock\<close>; the other branch releases the read lock
  before it calls the handler.
\<close>

definition ServeQRPC ::
  "('h, 'mw) ServeMux \<Rightarrow> 'w \<Rightarrow> RequestFrame \<Rightarrow> (('h, 'mw) wrapped \<times> 'w \<times> RequestFrame) list \<Rightarrow>
   (('h, 'mw) ServeMux \<times> RequestFrame \<times> (('h, 'mw) wrapped \<times> 'w \<times> RequestFrame) list) outcome" where
  "ServeQRPC mux w r calls =
     (case RLock (mux_mu mux) of
        None \<Rightarrow> Blocks (mux, r, calls)
      | Some l \<Rightarrow>
          (let mux1 = mux\<lparr>mux_mu := l\<rparr>
           in case lookup (mux_m mux1) (Cmd (frame r)) of
                None \<Rightarrow> Returns (mux1, Close r, calls)
              | Some hdl \<Rightarrow>
                  (case RUnlock (mux_mu mux1) of
                     None \<Rightarrow> Aborts FatalUnlockOfUnlockedMutex (mux1, r, calls)
                   | Some l' \<Rightarrow> Returns (mux1\<lparr>mux_mu := l'\<rparr>, r, calls @ [(hdl, w, r)]))))"

subsection \<open>Connection registry: Server.untrack and Server.bindID\<close>

text \<open>
  Modelled from the spec: the struct \<open>serveconn\<close> and its methods \<open>GetID\<close> and
  \<open>GetWriter\<close> are not in server.go, which only uses them. Per the spec a connection has
  the "binding index \<open>idx\<close>, identity \<open>id: string\<close> (empty until bound)" and the
  "untrack-once flag and signal channel". A \<open>*serveconn\<close> is a reference into the store
  \<open>conns\<close> of connection objects; \<open>conn_id\<close> is what \<open>GetID\<close> returns, \<open>untrackFlag\<close> is
  the field \<open>untrack\<close> (a \<open>uint32\<close>), and of the channel \<open>untrackedCh\<close> the model keeps
  whether it is closed. A writer obtained by \<open>GetWriter\<close> is named by its connection.
  \<open>rwcClosed\<close> records \<open>closeUntracked\<close>.
\<close>

type_synonym connref = nat

record serveconn =
  idx :: nat
  conn_id :: string
  untrackFlag :: "32 word"
  untrackedCh :: bool
  rwcClosed :: bool

text \<open>
  Modelled from the spec: the struct \<open>ServerBinding\<close> is not in server.go. Among its
  options the spec lists \<open>counterMetric?\<close>, the "metric sink for kickoff events", and
  \<open>onKickCB?\<close>, "invoked on a preempted connection before its final teardown". The
  registry only asks whether the two are set (not \<open>nil\<close>).
\<close>

record ServerBinding =
  OnKickCB :: bool
  CounterMetric :: bool

text \<open>
  \<open>Server\<close>. The slices \<open>bindings\<close>, \<open>id2Conn\<close> and \<open>activeConn\<close> all have one entry per
  binding, and a connection gets its \<open>idx\<close> from \<open>newConn\<close>, which has indexed \<open>bindings\<close>
  with it; the slices are functions of the index here. A \<open>sync.Map\<close> is a map (\<open>id2Conn\<close>)
  or a set of keys (\<open>activeConn\<close>, whose values are empty structs). \<open>mu\<close> is whether the
  \<open>sync.Mutex\<close> is locked; \<open>srv_done\<close> is the field \<open>done\<close>. Callbacks are opaque
  to the program: a callback is a number, and the model records the calls made,
  \<open>shutdownCalls\<close> for the functions given to \<open>OnShutdown\<close>, \<open>kickCalls\<close> for \<open>OnKickCB\<close>
  with the connection whose writer was passed, and \<open>kickoffCount\<close> for the additions to
  the counter metric.
\<close>

record Server =
  bindings :: "nat \<Rightarrow> ServerBinding"
  mu :: bool
  shutdownFunc :: "nat list"
  srv_done :: bool
  id2Conn :: "nat \<Rightarrow> string \<Rightarrow> connref option"
  activeConn :: "nat \<Rightarrow> connref set"
  conns :: "connref \<Rightarrow> serveconn"
  shutdownCalls :: "nat list"
  kickCalls :: "connref list"
  kickoffCount :: nat

text \<open>
  \<open>untrack\<close>. \<open>atomic.CompareAndSwapUint32(&sc.untrack, 0, 1)\<close> succeeds exactly when the
  flag is 0 and sets it to 1. The channel returned is \<open>sc.untrackedCh\<close>, named by its
  connection. \<open>close\<close> of a channel that is closed already panics.
\<close>

definition untrack ::
  "Server \<Rightarrow> connref \<Rightarrow> bool \<Rightarrow> ((bool \<times> connref) \<times> Server) outcome" where
  "untrack srv sc kicked =
     (if untrackFlag (conns srv sc) \<noteq> 0 then Returns ((False, sc), srv)
      else
        (let srv1 = srv\<lparr>conns := (conns srv)(sc := (conns srv sc)\<lparr>untrackFlag := 1\<rparr>)\<rparr>;
             i = idx (conns srv1 sc);
             ident = conn_id (conns srv1 sc);
             srv2 = (if ident \<noteq> []
                     then srv1\<lparr>id2Conn := (id2Conn srv1)(i := (id2Conn srv1 i)(ident := None))\<rparr>
                     else srv1);
             srv3 = srv2\<lparr>activeConn := (activeConn srv2)(i := activeConn srv2 i - {sc})\<rparr>;
             srv4 = (if kicked \<and> OnKickCB (bindings srv3 i)
                     then srv3\<lparr>kickCalls := kickCalls srv3 @ [sc]\<rparr>
                     else srv3)
         in if untrackedCh (conns srv4 sc) then Aborts PanicCloseOfClosedChannel ((True, sc), srv4)
            else Returns ((True, sc),
                   srv4\<lparr>conns := (conns srv4)(sc := (conns srv4 sc)\<lparr>untrackedCh := True\<rparr>)\<rparr>)))"

text \<open>
  Modelled from the spec: \<open>serveconn.closeUntracked\<close> is not in server.go; it "closes the
  socket, cancels the context, waits for the three activities to terminate, and drains
  streams". The registry sees of it that the socket is closed afterwards; the error it
  returns only labels the metric.
\<close>

definition closeUntracked :: "Server \<Rightarrow> connref \<Rightarrow> Server" where
  "closeUntracked srv sc = srv\<lparr>conns := (conns srv)(sc := (conns srv sc)\<lparr>rwcClosed := True\<rparr>)\<rparr>"

text \<open>
  \<open>bindID\<close>. The label \<open>check\<close> heads a loop, which is \<open>bindID_check\<close>; the loop carries
  \<open>idx\<close>, read from \<open>sc\<close> once before the label, and the result variable \<open>kick\<close>. The
  package-level counter \<open>kickOrder\<close> is passed in and out next to the server.
  \<open>LoadOrStore\<close> stores \<open>sc\<close> when the id has no entry. \<open>return\<close> in the branch
  \<open>vsc == sc\<close> returns the result variables as they are, \<open>ko\<close> still 0. The receive
  \<open><-ch\<close> blocks unless the channel is closed. The loop need not end: the result is
  \<open>None\<close> when it runs forever.
\<close>

partial_function (option) bindID_check ::
  "Server \<Rightarrow> 64 word \<Rightarrow> connref \<Rightarrow> nat \<Rightarrow> string \<Rightarrow> bool \<Rightarrow>
   ((bool \<times> 64 word) \<times> Server \<times> 64 word) outcome option" where
  "bindID_check srv kickOrder sc i ident kick =
     (case id2Conn srv i ident of
        None \<Rightarrow>
          Some (Returns ((kick, kickOrder),
                  srv\<lparr>id2Conn := (id2Conn srv)(i := (id2Conn srv i)(ident \<mapsto> sc))\<rparr>, kickOrder))
      | Some vsc \<Rightarrow>
          if vsc = sc then Some (Returns ((kick, 0), srv, kickOrder))
          else
            (case untrack srv vsc True of
               Aborts a (res, srv1) \<Rightarrow> Some (Aborts a ((kick, 0), srv1, kickOrder))
             | Blocks (res, srv1) \<Rightarrow> Some (Blocks ((kick, 0), srv1, kickOrder))
             | Returns ((ok, ch), srv1) \<Rightarrow>
                 if \<not> ok \<and> \<not> untrackedCh (conns srv1 ch)
                 then Some (Blocks ((kick, 0), srv1, kickOrder))
                 else
                   (let srv2 = closeUntracked srv1 vsc;
                        srv3 = (if CounterMetric (bindings srv2 i)
                                then srv2\<lparr>kickoffCount := kickoffCount srv2 + 1\<rparr>
                                else srv2)
                    in bindID_check srv3 (kickOrder + 1) sc i ident True)))"

definition bindID ::
  "Server \<Rightarrow> 64 word \<Rightarrow> connref \<Rightarrow> string \<Rightarrow>
   ((bool \<times> 64 word) \<times> Server \<times> 64 word) outcome option" where
  "bindID srv kickOrder sc ident = bindID_check srv kickOrder sc (idx (conns srv sc)) ident False"

subsection \<open>Server.OnShutdown\<close>

text \<open>
  \<open>sync.Mutex\<close> for one goroutine at a time: \<open>Lock\<close> of a locked mutex blocks, and
  \<open>Unlock\<close> of a mutex that is not locked is the fatal error "sync: unlock of unlocked
  mutex". \<open>OnShutdown\<close> has two calls of \<open>Unlock\<close>: the one in the branch \<open>if srv.done\<close>
  and the last statement, which every path reaches.
\<close>

definition Mutex_Lock :: "bool \<Rightarrow> bool option" where
  "Mutex_Lock locked = (if locked then None else Some True)"

definition Mutex_Unlock :: "bool \<Rightarrow> bool option" where
  "Mutex_Unlock locked = (if locked then Some False else None)"

definition OnShutdown :: "Server \<Rightarrow> nat \<Rightarrow> Server outcome" where
  "OnShutdown srv f =
     (case Mutex_Lock (mu srv) of
        None \<Rightarrow> Blocks srv
      | Some l \<Rightarrow>
          (let srv1 = srv\<lparr>mu := l\<rparr>;
               branch = (if srv_done srv1
                         then (case Mutex_Unlock (mu srv1) of
                                 None \<Rightarrow> Aborts FatalUnlockOfUnlockedMutex srv1
                               | Some l' \<Rightarrow>
                                   Returns (srv1\<lparr>mu := l', shutdownCalls := shutdownCalls srv1 @ [f]\<rparr>))
                         else Returns srv1)
           in case branch of
                Returns srv2 \<Rightarrow>
                  (let srv3 = srv2\<lparr>shutdownFunc := shutdownFunc srv2 @ [f]\<rparr>
                   in case Mutex_Unlock (mu srv3) of
                        None \<Rightarrow> Aborts FatalUnlockOfUnlockedMutex srv3
                      | Some l' \<Rightarrow> Returns (srv3\<lparr>mu := l'\<rparr>))
              | Aborts a srv2 \<Rightarrow> Aborts a srv2
              | Blocks srv2 \<Rightarrow> Blocks srv2))"

subsection \<open>Accepting connections: tcpKeepAliveListener.Accept\<close>

text \<open>
  What \<open>Accept\<close> looks at in an accepted \<open>net.Conn\<close>: whether its dynamic type implements
  \<open>TCPConn\<close>, whether \<open>SetKeepAlive\<close> and \<open>SetKeepAlivePeriod\<close> fail on it, and the
  keep-alive settings they make when they do not fail. The two setters belong to the
  connection type, not to server.go: a call sets the value and returns \<open>nil\<close>, or
  returns its error and leaves the socket as it was. A \<open>time.Duration\<close> counts
  nanoseconds.
\<close>

definition Millisecond :: int where
  "Millisecond = 1000000"

definition Second :: int where
  "Second = 1000000000"

record Conn =
  isTCPConn :: bool
  keepAliveFails :: bool
  keepAlivePeriodFails :: bool
  keepAlive :: bool
  keepAlivePeriod :: int

text \<open>
  The errors of the accept path: the two error values of server.go, a \<open>*net.OpError\<close>
  with what its methods \<open>Timeout()\<close> and \<open>Temporary()\<close> return, another \<open>net.Error\<close>
  with its \<open>Temporary()\<close>, and any other error.
\<close>

datatype accept_error =
  ErrListenerAcceptReturnType
  | ErrAcceptTimedout
  | OpError bool bool
  | NetError bool
  | OtherError

definition SetKeepAlive :: "Conn \<Rightarrow> bool \<Rightarrow> Conn \<times> accept_error option" where
  "SetKeepAlive c v =
     (if keepAliveFails c then (c, Some (OpError False False)) else (c\<lparr>keepAlive := v\<rparr>, None))"

definition SetKeepAlivePeriod :: "Conn \<Rightarrow> int \<Rightarrow> Conn \<times> accept_error option" where
  "SetKeepAlivePeriod c d =
     (if keepAlivePeriodFails c then (c, Some (OpError False False))
      else (c\<lparr>keepAlivePeriod := d\<rparr>, None))"

text \<open>
  \<open>tcpKeepAliveListener.Accept\<close>, applied to what the embedded listener's \<open>Accept\<close>
  returned: a connection (\<open>None\<close> is \<open>nil\<close>) and an error (\<open>None\<close> is \<open>nil\<close>). The results
  of the two setters are not assigned to anything. A \<open>nil\<close> connection does not satisfy
  the type assertion \<open>c.(TCPConn)\<close>.
\<close>

definition Accept :: "Conn option \<times> accept_error option \<Rightarrow> Conn option \<times> accept_error option" where
  "Accept inner =
     (case inner of
        (c, Some err) \<Rightarrow> (c, Some err)
      | (None, None) \<Rightarrow> (None, Some ErrListenerAcceptReturnType)
      | (Some tc, None) \<Rightarrow>
          if \<not> isTCPConn tc then (Some tc, Some ErrListenerAcceptReturnType)
          else
            (let tc1 = fst (SetKeepAlive tc True);
                 tc2 = fst (SetKeepAlivePeriod tc1 (20 * Second))
             in (Some tc2, None)))"

text \<open>
  One turn of the loop of \<open>Serve\<close>, from the result of \<open>l.Accept()\<close> on: the function
  returns \<open>ErrServerClosed\<close>, or goes round again (\<open>Continue\<close>, with the new \<open>tempDelay\<close>
  and the time it slept), or sets \<open>tempDelay\<close> to 0 and starts the goroutine that calls
  \<open>newConn\<close> on the accepted connection (which stores it in \<open>activeConn\<close>) and serves
  it. \<open>doneClosed\<close> tells whether \<open>srv.doneChan\<close> is closed.
\<close>

datatype serve_action = ReturnErrServerClosed | Continue int int | ServeNewConn "Conn option"

definition Serve_iteration ::
  "bool \<Rightarrow> int \<Rightarrow> Conn option \<times> accept_error option \<Rightarrow> serve_action" where
  "Serve_iteration doneClosed tempDelay accepted =
     (case accepted of
        (rw, Some e) \<Rightarrow>
          if doneClosed then ReturnErrServerClosed
          else if e = ErrAcceptTimedout then Continue tempDelay 0
          else if (case e of OpError timeout temporary \<Rightarrow> timeout | _ \<Rightarrow> False)
          then Continue tempDelay 0
          else if (case e of OpError timeout temporary \<Rightarrow> temporary
                   | NetError temporary \<Rightarrow> temporary | _ \<Rightarrow> False)
          then
            (let d = (if tempDelay = 0 then 5 * Millisecond else tempDelay * 2);
                 d' = (if d > 1 * Second then 1 * Second else d)
             in Continue d' d')
          else Continue tempDelay Second
      | (rw, None) \<Rightarrow> ServeNewConn rw)"

subsection \<open>Example inputs\<close>

text \<open>
  The single-frame echo request of the spec (scenario A): size 14, request id 1, flags 0,
  command 1 and the two payload bytes AB CD, read without a frame size limit.
\<close>

definition echo_wire :: "byte list" where
  "echo_wire = [0, 0, 0, 0x0E, 0, 0, 0, 0, 0, 0, 0, 1, 0, 0, 0, 1, 0xAB, 0xCD]"

definition echo_reader :: defaultFrameReader where
  "echo_reader = \<lparr>Reader = echo_wire, rbuf = replicate 16 0, maxFrameSize = 0\<rparr>"

definition echo_frame :: Frame where
  "echo_frame = \<lparr>RequestID = 1, Cmd = 1, Flags = 0, Payload = 0\<rparr>"

definition echo_reader_after :: defaultFrameReader where
  "echo_reader_after = \<lparr>Reader = [], rbuf = take 16 echo_wire, maxFrameSize = 0\<rparr>"

text \<open>A header whose size field is 8, read without a limit, and read with the limit 5.\<close>

definition undersized_wire :: "byte list" where
  "undersized_wire = [0, 0, 0, 8, 0, 0, 0, 0, 0, 0, 0, 1, 0, 0, 0, 1]"

definition undersized_reader :: defaultFrameReader where
  "undersized_reader = \<lparr>Reader = undersized_wire, rbuf = replicate 16 0, maxFrameSize = 0\<rparr>"

definition undersized_limit5_reader :: defaultFrameReader where
  "undersized_limit5_reader = \<lparr>Reader = undersized_wire, rbuf = replicate 16 0, maxFrameSize = 5\<rparr>"

text \<open>Scenario D of the spec: the size field is 4096 and the limit is 1024.\<close>

definition oversized_wire :: "byte list" where
  "oversized_wire = [0, 0, 0x10, 0, 0, 0, 0, 0, 0, 0, 0, 1, 0, 0, 0, 1]"

definition oversized_reader :: defaultFrameReader where
  "oversized_reader = \<lparr>Reader = oversized_wire, rbuf = replicate 16 0, maxFrameSize = 1024\<rparr>"

text \<open>
  A wire with two frames, for a table that holds the open, bound stream 7: a reset frame
  for request 7 (the flag byte is 4, the mask used for \<open>RST\<close> here) and then a frame for
  request 9 with command 1 and one payload byte.
\<close>

definition rst_wire :: "byte list" where
  "rst_wire = [0, 0, 0, 12, 0, 0, 0, 0, 0, 0, 0, 7, 4, 0, 0, 0,
               0, 0, 0, 13, 0, 0, 0, 0, 0, 0, 0, 9, 0, 0, 0, 1, 0xAA]"

definition rst_reader :: defaultFrameReader where
  "rst_reader = \<lparr>Reader = rst_wire, rbuf = replicate 16 0, maxFrameSize = 0\<rparr>"

definition rst_frame :: Frame where
  "rst_frame = \<lparr>RequestID = 7, Cmd = 0, Flags = 4, Payload = 0\<rparr>"

definition rst_reader_next :: defaultFrameReader where
  "rst_reader_next = \<lparr>Reader = drop 16 rst_wire, rbuf = take 16 rst_wire, maxFrameSize = 0\<rparr>"

definition data_frame :: Frame where
  "data_frame = \<lparr>RequestID = 9, Cmd = 1, Flags = 0, Payload = 1\<rparr>"

definition rst_table :: ConnStreams where
  "rst_table = Map.empty(7 \<mapsto> \<lparr>state = Open, bound = True, inFrames = [], notified = False\<rparr>)"

text \<open>
  A server after \<open>Shutdown\<close>: \<open>done\<close> is set and the mutex is free. It has one binding
  without callbacks and no connections.
\<close>

definition no_conn :: serveconn where
  "no_conn = \<lparr>idx = 0, conn_id = [], untrackFlag = 0, untrackedCh = False, rwcClosed = False\<rparr>"

definition shut_down_server :: Server where
  "shut_down_server =
     \<lparr>bindings = (\<lambda>i. \<lparr>OnKickCB = False, CounterMetric = False\<rparr>), mu = False,
      shutdownFunc = [], srv_done = True, id2Conn = (\<lambda>i. Map.empty), activeConn = (\<lambda>i. {}),
      conns = (\<lambda>c. no_conn), shutdownCalls = [], kickCalls = [], kickoffCount = 0\<rparr>"

text \<open>
  A request for command 7, which a fresh mux has no handler for, and the mux after it has
  dispatched this request: the table is still \<open>nil\<close>, and one read lock is held.
\<close>

definition unregistered_request :: RequestFrame where
  "unregistered_request =
     \<lparr>frame = \<lparr>RequestID = 1, Cmd = 7, Flags = 0, Payload = 0\<rparr>, closed = False\<rparr>"

definition fresh_mux :: "(nat, nat) ServeMux" where
  "fresh_mux = NewServeMux"

definition mux_after_miss :: "(nat, nat) ServeMux" where
  "mux_after_miss = \<lparr>mux_mu = \<lparr>writer = False, readers = 1\<rparr>, mux_m = None\<rparr>"

text \<open>An accepted TCP socket on which both keep-alive calls fail, and a socket that is no TCPConn.\<close>

definition stubborn_socket :: Conn where
  "stubborn_socket = \<lparr>isTCPConn = True, keepAliveFails = True, keepAlivePeriodFails = True,
     keepAlive = False, keepAlivePeriod = 0\<rparr>"

definition foreign_socket :: Conn where
  "foreign_socket = \<lparr>isTCPConn = False, keepAliveFails = False, keepAlivePeriodFails = False,
     keepAlive = False, keepAlivePeriod = 0\<rparr>"

text \<open>
  A server with one binding, which has a kick callback and a counter metric, and two
  connections of that binding, both with the identity \<open>u1\<close>: connection 1 holds the id,
  connection 2 is about to bind it (scenario C of the spec). In \<open>waiting_server\<close> an
  \<open>untrack\<close> of connection 1 has set the flag and not yet closed the channel.
\<close>

definition u1_conn :: serveconn where
  "u1_conn = \<lparr>idx = 0, conn_id = ''u1'', untrackFlag = 0, untrackedCh = False, rwcClosed = False\<rparr>"

definition kick_server :: Server where
  "kick_server =
     \<lparr>bindings = (\<lambda>i. \<lparr>OnKickCB = True, CounterMetric = True\<rparr>), mu = False,
      shutdownFunc = [], srv_done = False,
      id2Conn = (\<lambda>i. Map.empty)(0 := [''u1'' \<mapsto> 1]),
      activeConn = (\<lambda>i. {})(0 := {1, 2}),
      conns = (\<lambda>c. no_conn)(1 := u1_conn, 2 := u1_conn),
      shutdownCalls = [], kickCalls = [], kickoffCount = 0\<rparr>"


section \<open>Properties\<close>

subsection \<open>The frame codec\<close>

text \<open>Bitwise composition of bytes is the big-endian number.\<close>

lemma or_push_bit_nat:
  fixes x y :: nat
  assumes "x < 2 ^ k"
  shows "x OR push_bit k y = y * 2 ^ k + x"
proof -
  have x: "take_bit k x = x" using assms by (simp add: take_bit_nat_eq_self)
  have "take_bit k x AND push_bit k y = 0"
    by (simp add: bit_eq_iff bit_simps)
  then have "x AND push_bit k y = 0" by (simp add: x)
  then have "x + push_bit k y = x OR push_bit k y"
    by (rule disjunctive_add_eq_or)
  then show ?thesis by (simp add: push_bit_eq_mult)
qed

lemma unat_byte_lt: "unat (b :: byte) < 256"
  using unsigned_less [of b, where 'a = nat] by simp

lemma be_nat_Nil: "be_nat [] = 0" by (simp add: be_nat_def)

lemma be_nat_snoc: "be_nat (bs @ [b]) = be_nat bs * 256 + unat b"
  by (simp add: be_nat_def)

lemma be_nat_bound: "be_nat bs < 256 ^ length bs"
proof (induction bs rule: rev_induct)
  case Nil
  show ?case by (simp add: be_nat_Nil)
next
  case (snoc b bs)
  have "be_nat bs * 256 + unat b < (be_nat bs + 1) * 256"
    using unat_byte_lt [of b] by simp
  also have "\<dots> \<le> 256 ^ length bs * 256"
    using snoc.IH by (intro mult_le_mono1) simp
  finally show ?case by (simp add: be_nat_snoc)
qed

lemma be_nat4: "be_nat [a, b, c, d] = ((unat a * 256 + unat b) * 256 + unat c) * 256 + unat d"
  by (simp add: be_nat_def)

lemma be_nat8: "be_nat [a, b, c, d, e, f, g, i] =
  ((((((unat a * 256 + unat b) * 256 + unat c) * 256 + unat d) * 256 + unat e) * 256 + unat f) * 256 + unat g) * 256 + unat i"
  by (simp add: be_nat_def)

lemma Uint32_word_of_nat:
  fixes a b c d :: byte
  shows "Uint32 (a # b # c # d # bs) = word_of_nat (be_nat [a, b, c, d])"
proof -
  have "be_nat [a, b, c, d]
     = unat d OR push_bit 8 (unat c OR push_bit 8 (unat b OR push_bit 8 (unat a)))"
    using unat_byte_lt [of a] unat_byte_lt [of b] unat_byte_lt [of c] unat_byte_lt [of d]
    by (simp add: or_push_bit_nat be_nat4)
  also have "word_of_nat \<dots> = (ucast d :: 32 word) OR push_bit 8 (ucast c) OR push_bit 16 (ucast b) OR push_bit 24 (ucast a)"
    by (simp only: of_nat_or_eq of_nat_push_bit of_nat_unat push_bit_or push_bit_push_bit)
      (simp add: ac_simps)
  finally show ?thesis by (simp add: Uint32_def ac_simps)
qed

lemma Uint64_word_of_nat:
  fixes a b c d e f g i :: byte
  shows "Uint64 (a # b # c # d # e # f # g # i # bs) = word_of_nat (be_nat [a, b, c, d, e, f, g, i])"
proof -
  have "be_nat [a, b, c, d, e, f, g, i]
     = unat i OR push_bit 8 (unat g OR push_bit 8 (unat f OR push_bit 8 (unat e OR push_bit 8
        (unat d OR push_bit 8 (unat c OR push_bit 8 (unat b OR push_bit 8 (unat a)))))))"
    using unat_byte_lt [of a] unat_byte_lt [of b] unat_byte_lt [of c] unat_byte_lt [of d]
      unat_byte_lt [of e] unat_byte_lt [of f] unat_byte_lt [of g] unat_byte_lt [of i]
    by (simp add: or_push_bit_nat be_nat8)
  also have "word_of_nat \<dots> = (ucast i :: 64 word) OR push_bit 8 (ucast g) OR push_bit 16 (ucast f)
     OR push_bit 24 (ucast e) OR push_bit 32 (ucast d) OR push_bit 40 (ucast c)
     OR push_bit 48 (ucast b) OR push_bit 56 (ucast a)"
    by (simp only: of_nat_or_eq of_nat_push_bit of_nat_unat push_bit_or push_bit_push_bit)
      (simp add: ac_simps)
  finally show ?thesis by (simp add: Uint64_def ac_simps)
qed

lemma take4: "4 \<le> length b \<Longrightarrow> \<exists>b0 b1 b2 b3 bs. b = b0 # b1 # b2 # b3 # bs"
  by (cases b; simp; rename_tac b0 r0, case_tac r0; simp; rename_tac b1 r1, case_tac r1; simp;
      rename_tac b2 r2, case_tac r2; simp)

lemma unat_Uint32: assumes "4 \<le> length b" shows "unat (Uint32 b) = be_nat (take 4 b)"
proof -
  from take4 [OF assms] obtain b0 b1 b2 b3 bs where b: "b = b0 # b1 # b2 # b3 # bs" by blast
  have "be_nat [b0, b1, b2, b3] < 2 ^ 32" using be_nat_bound [of "[b0, b1, b2, b3]"] by simp
  then show ?thesis
    by (simp add: b Uint32_word_of_nat unat_of_nat del: of_nat_add of_nat_mult)
qed

lemma take8: "8 \<le> length b \<Longrightarrow> \<exists>b0 b1 b2 b3 b4 b5 b6 b7 bs. b = b0 # b1 # b2 # b3 # b4 # b5 # b6 # b7 # bs"
proof -
  assume a: "8 \<le> length b"
  then have "4 \<le> length b" by simp
  from take4 [OF this] obtain b0 b1 b2 b3 r where b: "b = b0 # b1 # b2 # b3 # r" by blast
  with a have "4 \<le> length r" by simp
  from take4 [OF this] obtain b4 b5 b6 b7 bs where "r = b4 # b5 # b6 # b7 # bs" by blast
  with b show ?thesis by blast
qed

lemma unat_Uint64: assumes "8 \<le> length b" shows "unat (Uint64 b) = be_nat (take 8 b)"
proof -
  from take8 [OF assms] obtain b0 b1 b2 b3 b4 b5 b6 b7 bs
    where b: "b = b0 # b1 # b2 # b3 # b4 # b5 # b6 # b7 # bs" by blast
  have "be_nat [b0, b1, b2, b3, b4, b5, b6, b7] < 2 ^ 64"
    using be_nat_bound [of "[b0, b1, b2, b3, b4, b5, b6, b7]"] by simp
  then show ?thesis
    by (simp add: b Uint64_word_of_nat unat_of_nat del: of_nat_add of_nat_mult)
qed

lemma unat_low24: "unat ((x :: 32 word) AND 0xffffff) = unat x mod 2 ^ 24"
proof -
  have "(0xffffff :: 32 word) = mask 24" by (simp add: mask_eq_exp_minus_1)
  then have "x AND 0xffffff = take_bit 24 x" by (simp add: take_bit_eq_mask)
  then have "unat (x AND 0xffffff) = take_bit 24 (unat x)"
    by (simp only: unsigned_take_bit_eq)
  then show ?thesis by (simp only: take_bit_eq_mod)
qed

lemma unat_high8: "unat (ucast (drop_bit 24 (x :: 32 word)) :: 8 word) = unat x div 2 ^ 24"
proof -
  have "unat x < 2 ^ 32" using unsigned_less [of x, where 'a = nat] by simp
  then have "unat x div 2 ^ 24 < 2 ^ 8" by simp
  then have "take_bit 8 (unat x div 2 ^ 24) = unat x div 2 ^ 24"
    by (simp only: take_bit_nat_eq_self)
  moreover have "unat (ucast (drop_bit 24 x) :: 8 word) = take_bit 8 (drop_bit 24 (unat x))"
    by (simp only: unsigned_ucast_eq unat_drop_bit_eq) simp
  ultimately show ?thesis by (simp only: drop_bit_eq_div)
qed

lemma too_large_iff:
  "(word_of_int m < (x :: 32 word)) = (m mod 2 ^ 32 < int (unat x))"
  by (simp add: word_less_def uint_word_of_int take_bit_eq_mod)

lemma header_fields:
  assumes "16 \<le> length w"
  shows "unat (Uint32 (take 16 w)) = wire_size w"
    and "unat (Uint64 (drop 4 (take 16 w))) = wire_requestID w"
    and "unat (Uint32 (drop 12 (take 16 w))) = wire_cmdAndFlags w"
proof -
  have "take 4 (take 16 w) = take 4 w" by simp
  then show "unat (Uint32 (take 16 w)) = wire_size w"
    using assms by (simp add: unat_Uint32 wire_size_def)
  have "take 8 (drop 4 (take 16 w)) = take 8 (drop 4 w)" by (simp add: drop_take)
  then show "unat (Uint64 (drop 4 (take 16 w))) = wire_requestID w"
    using assms by (simp add: unat_Uint64 wire_requestID_def)
  have "take 4 (drop 12 (take 16 w)) = take 4 (drop 12 w)" by (simp add: drop_take)
  then show "unat (Uint32 (drop 12 (take 16 w))) = wire_cmdAndFlags w"
    using assms by (simp add: unat_Uint32 wire_cmdAndFlags_def)
qed

lemma too_large_wire:
  assumes "16 \<le> length w"
  shows "(word_of_int m < Uint32 (take 16 w)) = (m mod 2 ^ 32 < int (wire_size w))"
proof -
  have "(word_of_int m < Uint32 (take 16 w)) = (m mod 2 ^ 32 < int (unat (Uint32 (take 16 w))))"
    by (rule too_large_iff)
  then show ?thesis by (simp only: header_fields(1) [OF assms])
qed

lemma readFrame_short_header:
  assumes "length (Reader dfr) < 16"
  shows "readFrame dfr h = (Inl ErrIO, dfr\<lparr>Reader := []\<rparr>, h)"
  using assms by (simp add: readFrame_def ReadBytes_def)

lemma readFrame_too_large:
  assumes "16 \<le> length (Reader dfr)"
    and "0 < maxFrameSize dfr" and "maxFrameSize dfr mod 2 ^ 32 < int (wire_size (Reader dfr))"
  shows "readFrame dfr h =
    (Inl ErrFrameTooLarge, dfr\<lparr>Reader := drop 16 (Reader dfr), rbuf := take 16 (Reader dfr)\<rparr>, h)"
  using assms
  by (simp add: readFrame_def ReadBytes_def Let_def too_large_wire header_fields
      del: take_bit_eq_mod)

lemma readFrame_invalid_size:
  assumes "16 \<le> length (Reader dfr)"
    and "\<not> (0 < maxFrameSize dfr \<and> maxFrameSize dfr mod 2 ^ 32 < int (wire_size (Reader dfr)))"
    and "wire_size (Reader dfr) < 12"
  shows "readFrame dfr h =
    (Inl ErrInvalidFrameSize, dfr\<lparr>Reader := drop 16 (Reader dfr), rbuf := take 16 (Reader dfr)\<rparr>, h)"
proof -
  have "Uint32 (take 16 (Reader dfr)) < 12"
    using assms(1,3) by (simp add: word_less_nat_alt header_fields)
  then show ?thesis
    using assms(1,2)
    by (simp add: readFrame_def ReadBytes_def Let_def too_large_wire header_fields)
qed

lemma payload_length:
  assumes "16 \<le> length w" and "12 \<le> wire_size w"
  shows "\<not> Uint32 (take 16 w) < 12"
    and "unat (Uint32 (take 16 w) - 12) = wire_size w - 12"
proof -
  have "(12 :: 32 word) \<le> Uint32 (take 16 w)"
    using assms by (simp add: word_le_nat_alt header_fields)
  then show "\<not> Uint32 (take 16 w) < 12" by simp
  from \<open>12 \<le> Uint32 (take 16 w)\<close> have "unat (Uint32 (take 16 w) - 12) = unat (Uint32 (take 16 w)) - unat (12 :: 32 word)"
    by (rule unat_sub)
  then show "unat (Uint32 (take 16 w) - 12) = wire_size w - 12"
    using assms by (simp add: header_fields)
qed

lemma readFrame_short_payload:
  assumes "16 \<le> length (Reader dfr)"
    and "\<not> (0 < maxFrameSize dfr \<and> maxFrameSize dfr mod 2 ^ 32 < int (wire_size (Reader dfr)))"
    and "12 \<le> wire_size (Reader dfr)"
    and "length (Reader dfr) < wire_size (Reader dfr) + 4"
  shows "readFrame dfr h =
    (Inl ErrIO, dfr\<lparr>Reader := [], rbuf := take 16 (Reader dfr)\<rparr>,
     h @ [replicate (wire_size (Reader dfr) - 12) 0])"
  using assms
  by (simp add: readFrame_def ReadBytes_def make_bytes_def Let_def too_large_wire header_fields
      payload_length)

lemma readFrame_frame:
  assumes "16 \<le> length (Reader dfr)"
    and "\<not> (0 < maxFrameSize dfr \<and> maxFrameSize dfr mod 2 ^ 32 < int (wire_size (Reader dfr)))"
    and "12 \<le> wire_size (Reader dfr)"
    and "wire_size (Reader dfr) + 4 \<le> length (Reader dfr)"
  shows "readFrame dfr h =
    (Inr \<lparr>RequestID = Uint64 (drop 4 (take 16 (Reader dfr))),
          Cmd = Uint32 (drop 12 (take 16 (Reader dfr))) AND 0xffffff,
          Flags = ucast (drop_bit 24 (Uint32 (drop 12 (take 16 (Reader dfr))))),
          Payload = length h\<rparr>,
     dfr\<lparr>Reader := drop (wire_size (Reader dfr) + 4) (Reader dfr), rbuf := take 16 (Reader dfr)\<rparr>,
     h @ [take (wire_size (Reader dfr) - 12) (drop 16 (Reader dfr))])"
  using assms
  by (simp add: readFrame_def ReadBytes_def make_bytes_def Let_def too_large_wire header_fields
      payload_length add.commute)

lemma wire_size_bound: "wire_size w < 2 ^ 32"
proof -
  have "be_nat (take 4 w) < 256 ^ length (take 4 w)" by (rule be_nat_bound)
  also have "(256 :: nat) ^ length (take 4 w) \<le> 256 ^ 4"
    by (rule power_increasing) simp_all
  finally show ?thesis by (simp add: wire_size_def)
qed

text \<open>
  Claim C1. Whenever \<open>readFrame\<close> returns a frame, it has read a 16-byte header and
  decoded it big-endian: the request id is the number in bytes 4 to 11, the flags are the
  high byte and the command the low 24 bits of the number in bytes 12 to 15, and the size
  is the number in bytes 0 to 3. The size is at least 12, the payload is a slice that
  \<open>make\<close> has just allocated (its address is the first one past the store the call was
  given, whose arrays all stay as they were), it holds exactly size - 12 bytes, and these
  are the bytes that follow the header on the wire.
\<close>

theorem readFrame_decodes_header:
  assumes "readFrame dfr h = (Inr f, dfr', h')"
  shows "16 \<le> length (Reader dfr)
    \<and> rbuf dfr' = take 16 (Reader dfr)
    \<and> unat (RequestID f) = wire_requestID (Reader dfr)
    \<and> unat (Flags f) = wire_cmdAndFlags (Reader dfr) div 2 ^ 24
    \<and> unat (Cmd f) = wire_cmdAndFlags (Reader dfr) mod 2 ^ 24
    \<and> 12 \<le> wire_size (Reader dfr)
    \<and> wire_size (Reader dfr) + 4 \<le> length (Reader dfr)
    \<and> Payload f = length h
    \<and> h' = h @ [take (wire_size (Reader dfr) - 12) (drop 16 (Reader dfr))]
    \<and> length (h' ! Payload f) = wire_size (Reader dfr) - 12
    \<and> Reader dfr' = drop (wire_size (Reader dfr) + 4) (Reader dfr)"
proof -
  let ?w = "Reader dfr"
  let ?big = "0 < maxFrameSize dfr \<and> maxFrameSize dfr mod 2 ^ 32 < int (wire_size ?w)"
  have len: "16 \<le> length ?w"
  proof (rule ccontr)
    assume "\<not> 16 \<le> length ?w"
    then have "readFrame dfr h = (Inl ErrIO, dfr\<lparr>Reader := []\<rparr>, h)"
      by (simp add: readFrame_short_header)
    with assms show False by simp
  qed
  have nbig: "\<not> ?big"
  proof
    assume ?big
    then have "readFrame dfr h =
      (Inl ErrFrameTooLarge, dfr\<lparr>Reader := drop 16 ?w, rbuf := take 16 ?w\<rparr>, h)"
      using len by (intro readFrame_too_large) simp_all
    with assms show False by simp
  qed
  have size: "12 \<le> wire_size ?w"
  proof (rule ccontr)
    assume "\<not> 12 \<le> wire_size ?w"
    then have "readFrame dfr h =
      (Inl ErrInvalidFrameSize, dfr\<lparr>Reader := drop 16 ?w, rbuf := take 16 ?w\<rparr>, h)"
      using len nbig by (intro readFrame_invalid_size) simp_all
    with assms show False by simp
  qed
  have enough: "wire_size ?w + 4 \<le> length ?w"
  proof (rule ccontr)
    assume "\<not> wire_size ?w + 4 \<le> length ?w"
    then have "readFrame dfr h =
      (Inl ErrIO, dfr\<lparr>Reader := [], rbuf := take 16 ?w\<rparr>, h @ [replicate (wire_size ?w - 12) 0])"
      using len nbig size by (intro readFrame_short_payload) simp_all
    with assms show False by simp
  qed
  from readFrame_frame [OF len nbig size enough, of h] assms
  have f: "f = \<lparr>RequestID = Uint64 (drop 4 (take 16 ?w)),
          Cmd = Uint32 (drop 12 (take 16 ?w)) AND 0xffffff,
          Flags = ucast (drop_bit 24 (Uint32 (drop 12 (take 16 ?w)))),
          Payload = length h\<rparr>"
    and dfr': "dfr' = dfr\<lparr>Reader := drop (wire_size ?w + 4) ?w, rbuf := take 16 ?w\<rparr>"
    and h': "h' = h @ [take (wire_size ?w - 12) (drop 16 ?w)]"
    by simp_all
  have "unat (RequestID f) = wire_requestID ?w"
    by (simp add: f header_fields [OF len])
  moreover have "unat (Flags f) = wire_cmdAndFlags ?w div 2 ^ 24"
    by (simp only: f Frame.simps unat_high8 header_fields [OF len])
  moreover have "unat (Cmd f) = wire_cmdAndFlags ?w mod 2 ^ 24"
    by (simp only: f Frame.simps unat_low24 header_fields [OF len])
  moreover have "length (h' ! Payload f) = wire_size ?w - 12"
    using enough size by (simp add: f h')
  ultimately show ?thesis
    using len size enough by (simp add: f dfr' h')
qed

theorem readFrame_decodes_header_witness:
  "readFrame echo_reader [] = (Inr echo_frame, echo_reader_after, [[0xAB, 0xCD]])
    \<and> (16 \<le> length (Reader echo_reader)
    \<and> rbuf echo_reader_after = take 16 (Reader echo_reader)
    \<and> unat (RequestID echo_frame) = wire_requestID (Reader echo_reader)
    \<and> unat (Flags echo_frame) = wire_cmdAndFlags (Reader echo_reader) div 2 ^ 24
    \<and> unat (Cmd echo_frame) = wire_cmdAndFlags (Reader echo_reader) mod 2 ^ 24
    \<and> 12 \<le> wire_size (Reader echo_reader)
    \<and> wire_size (Reader echo_reader) + 4 \<le> length (Reader echo_reader)
    \<and> Payload echo_frame = length ([] :: heap)
    \<and> [[0xAB, 0xCD]] = [] @ [take (wire_size (Reader echo_reader) - 12) (drop 16 (Reader echo_reader))]
    \<and> length ([[0xAB, 0xCD :: byte]] ! Payload echo_frame) = wire_size (Reader echo_reader) - 12
    \<and> Reader echo_reader_after = drop (wire_size (Reader echo_reader) + 4) (Reader echo_reader))"
proof -
  have run: "readFrame echo_reader [] = (Inr echo_frame, echo_reader_after, [[0xAB, 0xCD]])"
    by (simp add: readFrame_def ReadBytes_def make_bytes_def echo_reader_def echo_wire_def
        echo_frame_def echo_reader_after_def Uint32_def Uint64_def)
  from run readFrame_decodes_header [OF run] show ?thesis by (rule conjI)
qed

text \<open>
  Claim C2, as amended. For a header whose size field is less than 12, \<open>readFrame\<close>
  returns an error, takes the 16 header bytes off the wire and nothing more, and leaves the
  store as it was (no payload is allocated or read). The error is \<open>ErrInvalidFrameSize\<close>
  unless the check against \<open>maxFrameSize\<close>, which comes first, fires: when
  \<open>maxFrameSize > 0\<close> and the size exceeds \<open>uint32(maxFrameSize)\<close>, the error is
  \<open>ErrFrameTooLarge\<close>.
\<close>

theorem readFrame_size_below_12:
  assumes "16 \<le> length (Reader dfr)" and "wire_size (Reader dfr) < 12"
  shows "readFrame dfr h =
    (Inl (if 0 < maxFrameSize dfr \<and> maxFrameSize dfr mod 2 ^ 32 < int (wire_size (Reader dfr))
          then ErrFrameTooLarge else ErrInvalidFrameSize),
     dfr\<lparr>Reader := drop 16 (Reader dfr), rbuf := take 16 (Reader dfr)\<rparr>, h)"
proof (cases "0 < maxFrameSize dfr \<and> maxFrameSize dfr mod 2 ^ 32 < int (wire_size (Reader dfr))")
  case True
  then show ?thesis using assms(1) by (simp add: readFrame_too_large)
next
  case False
  then show ?thesis using assms by (simp add: readFrame_invalid_size)
qed

theorem readFrame_size_below_12_witness:
  "16 \<le> length (Reader undersized_reader) \<and> wire_size (Reader undersized_reader) < 12
    \<and> readFrame undersized_reader [[1, 2, 3]] =
        (Inl ErrInvalidFrameSize,
         undersized_reader\<lparr>Reader := [], rbuf := undersized_wire\<rparr>, [[1, 2, 3]])"
proof -
  have len: "16 \<le> length (Reader undersized_reader)"
    by (simp add: undersized_reader_def undersized_wire_def)
  have size: "wire_size (Reader undersized_reader) < 12"
    by (simp add: undersized_reader_def undersized_wire_def wire_size_def be_nat_def)
  from readFrame_size_below_12 [OF len size, of "[[1, 2, 3]]"] len size
  show ?thesis by (simp add: undersized_reader_def undersized_wire_def)
qed

text \<open>
  The claim as stated fails: with \<open>maxFrameSize = 5\<close>, a header whose size field is 8 is
  answered with \<open>ErrFrameTooLarge\<close>, not with \<open>ErrInvalidFrameSize\<close>.
\<close>

theorem readFrame_size_below_12_counterexample:
  "wire_size (Reader undersized_limit5_reader) < 12
    \<and> fst (readFrame undersized_limit5_reader []) = Inl ErrFrameTooLarge
    \<and> fst (readFrame undersized_limit5_reader []) \<noteq> Inl ErrInvalidFrameSize"
  by (simp add: readFrame_def ReadBytes_def undersized_limit5_reader_def undersized_wire_def
      wire_size_def be_nat_def Uint32_def Uint64_def)

text \<open>
  Claim C3. With \<open>maxFrameSize = M > 0\<close>, a header whose size field is greater than \<open>M\<close>
  makes \<open>readFrame\<close> return \<open>ErrFrameTooLarge\<close>; the wire has lost the 16 header bytes
  and nothing more, and the store is the one the call was given: no payload was allocated
  or read.
\<close>

theorem readFrame_size_above_max:
  assumes "16 \<le> length (Reader dfr)"
    and "0 < maxFrameSize dfr"
    and "maxFrameSize dfr < int (wire_size (Reader dfr))"
  shows "readFrame dfr h =
    (Inl ErrFrameTooLarge, dfr\<lparr>Reader := drop 16 (Reader dfr), rbuf := take 16 (Reader dfr)\<rparr>, h)"
proof -
  have "int (wire_size (Reader dfr)) < 2 ^ 32"
    using wire_size_bound [of "Reader dfr"] by (simp only: of_nat_less_numeral_power_cancel_iff)
  with assms(2,3) have "maxFrameSize dfr mod 2 ^ 32 = maxFrameSize dfr"
    by simp
  with assms show ?thesis by (simp add: readFrame_too_large)
qed

theorem readFrame_size_above_max_witness:
  "16 \<le> length (Reader oversized_reader) \<and> 0 < maxFrameSize oversized_reader
    \<and> maxFrameSize oversized_reader < int (wire_size (Reader oversized_reader))
    \<and> readFrame oversized_reader [] =
        (Inl ErrFrameTooLarge, oversized_reader\<lparr>Reader := [], rbuf := oversized_wire\<rparr>, [])"
proof -
  have len: "16 \<le> length (Reader oversized_reader)"
    by (simp add: oversized_reader_def oversized_wire_def)
  have pos: "0 < maxFrameSize oversized_reader"
    by (simp add: oversized_reader_def)
  have big: "maxFrameSize oversized_reader < int (wire_size (Reader oversized_reader))"
    by (simp add: oversized_reader_def oversized_wire_def wire_size_def be_nat_def)
  from readFrame_size_above_max [OF len pos big, of "[]"] len pos big
  show ?thesis by (simp add: oversized_reader_def oversized_wire_def)
qed

subsection \<open>Reading frames through the stream table\<close>

text \<open>One turn of the loop of \<open>ReadFrame\<close>, for each way the frame read can go.\<close>

lemma ReadFrame_err:
  "readFrame dfr h = (Inl e, dfr1, h1) \<Longrightarrow> ReadFrame ops dfr h cs = Some (Inl e, dfr1, h1, cs)"
  by (simp add: ReadFrame.simps [of ops dfr h cs])

lemma ReadFrame_RST_step:
  assumes "readFrame dfr h = (Inr g, dfr1, h1)" and "IsRst ops (Flags g)"
  shows "ReadFrame ops dfr h cs =
    ReadFrame ops dfr1 h1
      (case GetStream ops cs (RequestID g) (Flags g) of None \<Rightarrow> cs | Some s \<Rightarrow> ResetByPeer ops s cs)"
  using assms by (simp add: ReadFrame.simps [of ops dfr h cs] split: option.splits)

lemma ReadFrame_bind:
  assumes "readFrame dfr h = (Inr g, dfr1, h1)" and "\<not> IsRst ops (Flags g)"
    and "CreateOrGetStream ops cs (RequestID g) (Flags g) = ((s, loaded), cs1)"
    and "TryBind ops s g cs1 = (True, cs2)"
  shows "ReadFrame ops dfr h cs = Some (Inr g, dfr1, h1, cs2)"
  using assms by (simp add: ReadFrame.simps [of ops dfr h cs])

lemma ReadFrame_continuation:
  assumes "readFrame dfr h = (Inr g, dfr1, h1)" and "\<not> IsRst ops (Flags g)"
    and "CreateOrGetStream ops cs (RequestID g) (Flags g) = ((s, loaded), cs1)"
    and "TryBind ops s g cs1 = (False, cs2)"
    and "AddInFrame ops s g cs2 = (ok, cs3)"
  shows "ReadFrame ops dfr h cs =
    (if ok \<or> Done ops s cs3 then ReadFrame ops dfr1 h1 cs3 else None)"
  using assms by (cases ok) (simp_all add: ReadFrame.simps [of ops dfr h cs])

lemma ReadFrame_no_RST:
  "ReadFrame ops dfr h cs = Some (Inr f, dfr', h', cs') \<Longrightarrow> \<not> IsRst ops (Flags f)"
proof (induction ops dfr h cs rule: ReadFrame.induct)
  case (1 ops dfr h cs)
  obtain r dfr1 h1 where rf: "readFrame dfr h = (r, dfr1, h1)"
    by (cases "readFrame dfr h") auto
  show ?case
  proof (cases r)
    case (Inl e)
    with rf "1.prems" show ?thesis by (simp add: ReadFrame_err)
  next
    case (Inr g)
    note rf = rf [unfolded Inr]
    show ?thesis
    proof (cases "IsRst ops (Flags g)")
      case True
      show ?thesis
      proof (cases "GetStream ops cs (RequestID g) (Flags g)")
        case None
        with "1.prems" rf True
        have "ReadFrame ops dfr1 h1 cs = Some (Inr f, dfr', h', cs')"
          by (simp add: ReadFrame_RST_step)
        with "1.IH"(1) [OF rf [symmetric] refl refl True None] show ?thesis .
      next
        case (Some s)
        with "1.prems" rf True
        have "ReadFrame ops dfr1 h1 (ResetByPeer ops s cs) = Some (Inr f, dfr', h', cs')"
          by (simp add: ReadFrame_RST_step)
        with "1.IH"(2) [OF rf [symmetric] refl refl True Some] show ?thesis .
      qed
    next
      case False
      obtain s loaded cs1 where cg: "CreateOrGetStream ops cs (RequestID g) (Flags g) = ((s, loaded), cs1)"
        by (cases "CreateOrGetStream ops cs (RequestID g) (Flags g)") auto
      obtain b cs2 where tb: "TryBind ops s g cs1 = (b, cs2)"
        by (cases "TryBind ops s g cs1") auto
      show ?thesis
      proof (cases b)
        case True
        with rf False cg tb have "ReadFrame ops dfr h cs = Some (Inr g, dfr1, h1, cs2)"
          by (simp add: ReadFrame_bind)
        with "1.prems" have "f = g" by simp
        with False show ?thesis by simp
      next
        case False
        with tb have tb: "TryBind ops s g cs1 = (False, cs2)" by simp
        obtain ok cs3 where ai: "AddInFrame ops s g cs2 = (ok, cs3)"
          by (cases "AddInFrame ops s g cs2") auto
        from rf \<open>\<not> IsRst ops (Flags g)\<close> cg tb ai
        have step: "ReadFrame ops dfr h cs =
          (if ok \<or> Done ops s cs3 then ReadFrame ops dfr1 h1 cs3 else None)"
          by (simp add: ReadFrame_continuation)
        show ?thesis
        proof (cases ok)
          case True
          with ai have ai: "AddInFrame ops s g cs2 = (True, cs3)" by simp
          from True step "1.prems" have "ReadFrame ops dfr1 h1 cs3 = Some (Inr f, dfr', h', cs')"
            by simp
          with "1.IH"(3) [OF rf [symmetric] refl refl \<open>\<not> IsRst ops (Flags g)\<close> cg [symmetric] refl
              tb [symmetric] refl ai [symmetric] refl]
          show ?thesis .
        next
          case False
          with ai have ai: "AddInFrame ops s g cs2 = (False, cs3)" by simp
          from False step "1.prems" have d: "Done ops s cs3"
            by (simp split: if_splits)
          with step "1.prems" have "ReadFrame ops dfr1 h1 cs3 = Some (Inr f, dfr', h', cs')"
            by simp
          with "1.IH"(4) [OF rf [symmetric] refl refl \<open>\<not> IsRst ops (Flags g)\<close> cg [symmetric] refl
              tb [symmetric] refl ai [symmetric] refl d]
          show ?thesis .
        qed
      qed
    qed
  qed
qed

lemma spec_streams_RST_step:
  "(case GetStream (spec_streams rst strm) tbl i fl of
      None \<Rightarrow> tbl
    | Some s \<Rightarrow> ResetByPeer (spec_streams rst strm) s tbl)
   = (case tbl i of
        None \<Rightarrow> tbl
      | Some st \<Rightarrow> tbl(i \<mapsto> st\<lparr>state := Reset, notified := True\<rparr>))"
  by (simp add: spec_streams_def spec_GetStream_def spec_ResetByPeer_def split: option.splits)

text \<open>
  Claim C4. \<open>ReadFrame\<close> never returns a frame whose flags have \<open>RST\<close> set, whatever the
  stream table does. When the frame read from the wire is a reset frame, the call goes on
  exactly as a call on the rest of the wire would: with the table after \<open>ResetByPeer\<close>
  on the stream that \<open>GetStream\<close> found for the request id, or with the table unchanged
  when there is no such stream (the frame is dropped). For the stream table of the spec
  this table is the old one with the stream marked \<open>Reset\<close> and its consumers notified.
\<close>

theorem ReadFrame_never_returns_RST:
  fixes ops :: "('cs, 's) StreamOps" and cs :: 'cs and tbl :: ConnStreams
  shows "(map_option fst (ReadFrame ops dfr h cs) = Some (Inr f) \<longrightarrow> \<not> IsRst ops (Flags f))
    \<and> (readFrame dfr h = (Inr g, dfr1, h1) \<and> IsRst ops (Flags g) \<longrightarrow>
         ReadFrame ops dfr h cs =
           ReadFrame ops dfr1 h1
             (case GetStream ops cs (RequestID g) (Flags g) of
                None \<Rightarrow> cs
              | Some s \<Rightarrow> ResetByPeer ops s cs))
    \<and> (readFrame dfr h = (Inr g, dfr1, h1) \<and> spec_IsRst rst (Flags g) \<longrightarrow>
         ReadFrame (spec_streams rst strm) dfr h tbl =
           ReadFrame (spec_streams rst strm) dfr1 h1
             (case tbl (RequestID g) of
                None \<Rightarrow> tbl
              | Some st \<Rightarrow> tbl(RequestID g \<mapsto> st\<lparr>state := Reset, notified := True\<rparr>)))"
proof (intro conjI impI)
  assume "map_option fst (ReadFrame ops dfr h cs) = Some (Inr f)"
  then obtain dfr' h' cs' where "ReadFrame ops dfr h cs = Some (Inr f, dfr', h', cs')"
    by (cases "ReadFrame ops dfr h cs") auto
  then show "\<not> IsRst ops (Flags f)" by (rule ReadFrame_no_RST)
next
  assume "readFrame dfr h = (Inr g, dfr1, h1) \<and> IsRst ops (Flags g)"
  then show "ReadFrame ops dfr h cs =
      ReadFrame ops dfr1 h1
        (case GetStream ops cs (RequestID g) (Flags g) of
           None \<Rightarrow> cs
         | Some s \<Rightarrow> ResetByPeer ops s cs)"
    by (simp add: ReadFrame_RST_step)
next
  assume a: "readFrame dfr h = (Inr g, dfr1, h1) \<and> spec_IsRst rst (Flags g)"
  then have "IsRst (spec_streams rst strm) (Flags g)" by (simp add: spec_streams_def)
  with a have "ReadFrame (spec_streams rst strm) dfr h tbl =
      ReadFrame (spec_streams rst strm) dfr1 h1
        (case GetStream (spec_streams rst strm) tbl (RequestID g) (Flags g) of
           None \<Rightarrow> tbl
         | Some s \<Rightarrow> ResetByPeer (spec_streams rst strm) s tbl)"
    by (simp add: ReadFrame_RST_step)
  then show "ReadFrame (spec_streams rst strm) dfr h tbl =
      ReadFrame (spec_streams rst strm) dfr1 h1
        (case tbl (RequestID g) of
           None \<Rightarrow> tbl
         | Some st \<Rightarrow> tbl(RequestID g \<mapsto> st\<lparr>state := Reset, notified := True\<rparr>))"
    by (simp only: spec_streams_RST_step)
qed

theorem ReadFrame_never_returns_RST_witness:
  "(map_option fst (ReadFrame (spec_streams 4 1) rst_reader [] rst_table) = Some (Inr data_frame)
      \<and> \<not> IsRst (spec_streams 4 1) (Flags data_frame))
    \<and> (readFrame rst_reader [] = (Inr rst_frame, rst_reader_next, [[]])
      \<and> IsRst (spec_streams 4 1) (Flags rst_frame)
      \<and> spec_IsRst 4 (Flags rst_frame)
      \<and> ReadFrame (spec_streams 4 1) rst_reader [] rst_table =
           ReadFrame (spec_streams 4 1) rst_reader_next [[]]
             (case GetStream (spec_streams 4 1) rst_table (RequestID rst_frame) (Flags rst_frame) of
                None \<Rightarrow> rst_table
              | Some s \<Rightarrow> ResetByPeer (spec_streams 4 1) s rst_table)
      \<and> ReadFrame (spec_streams 4 1) rst_reader [] rst_table =
           ReadFrame (spec_streams 4 1) rst_reader_next [[]]
             (case rst_table (RequestID rst_frame) of
                None \<Rightarrow> rst_table
              | Some st \<Rightarrow> rst_table(RequestID rst_frame \<mapsto> st\<lparr>state := Reset, notified := True\<rparr>)))
    \<and> map_option (\<lambda>(r, d, h, cs). cs 7) (ReadFrame (spec_streams 4 1) rst_reader [] rst_table)
        = Some (Some \<lparr>state = Reset, bound = True, inFrames = [], notified = True\<rparr>)"
proof -
  have returned: "map_option fst (ReadFrame (spec_streams 4 1) rst_reader [] rst_table)
      = Some (Inr data_frame)"
    by code_simp
  have first: "readFrame rst_reader [] = (Inr rst_frame, rst_reader_next, [[]])"
    by (simp add: readFrame_def ReadBytes_def make_bytes_def rst_reader_def rst_wire_def
        rst_frame_def rst_reader_next_def Uint32_def Uint64_def)
  have rst: "spec_IsRst 4 (Flags rst_frame)"
    by (simp add: spec_IsRst_def rst_frame_def)
  then have rst': "IsRst (spec_streams 4 1) (Flags rst_frame)"
    by (simp add: spec_streams_def)
  have after: "map_option (\<lambda>(r, d, h, cs). cs 7) (ReadFrame (spec_streams 4 1) rst_reader [] rst_table)
      = Some (Some \<lparr>state = Reset, bound = True, inFrames = [], notified = True\<rparr>)"
    by code_simp
  from ReadFrame_never_returns_RST [of "spec_streams 4 1" rst_reader "[]" rst_table data_frame
      rst_frame rst_reader_next "[[]]" 4 1 rst_table] returned first rst rst' after
  show ?thesis by blast
qed

subsection \<open>The request multiplexer\<close>

text \<open>
  The write lock is held only inside \<open>Handle\<close>: a mux whose write lock is free has it
  free again after every call, however the call ends.
\<close>

lemma Handle_releases_write_lock:
  assumes "\<not> writer (mux_mu mux)"
  shows "case Handle mux cmd handler middleware of
           Returns mux' \<Rightarrow> \<not> writer (mux_mu mux')
         | Aborts a mux' \<Rightarrow> \<not> writer (mux_mu mux')
         | Blocks mux' \<Rightarrow> \<not> writer (mux_mu mux')"
  using assms
  by (simp add: Handle_def Lock_def Unlock_def Let_def split: option.splits)

lemma ServeQRPC_leaves_write_lock:
  assumes "\<not> writer (mux_mu mux)"
  shows "case ServeQRPC mux w r calls of
           Returns (mux', r', calls') \<Rightarrow> \<not> writer (mux_mu mux')
         | Aborts a (mux', r', calls') \<Rightarrow> \<not> writer (mux_mu mux')
         | Blocks (mux', r', calls') \<Rightarrow> \<not> writer (mux_mu mux')"
  using assms
  by (simp add: ServeQRPC_def RLock_def RUnlock_def Let_def split: option.splits)

text \<open>
  \<open>Handle\<close> on a mux whose lock nobody holds: it panics exactly for a \<open>nil\<close> handler and
  for a command that has a handler, and otherwise stores the wrapped handler, which a
  lookup of the command then finds.
\<close>

lemma Handle_lock_free:
  assumes "\<not> writer (mux_mu mux)" and "readers (mux_mu mux) = 0"
  shows "Handle mux cmd handler middleware =
    (case handler of
       None \<Rightarrow> Aborts PanicNilHandler mux
     | Some hdl \<Rightarrow>
         if lookup (mux_m mux) cmd \<noteq> None then Aborts (PanicMultipleRegistrations cmd) mux
         else Returns (mux\<lparr>mux_m := Some ((case mux_m mux of None \<Rightarrow> Map.empty | Some t \<Rightarrow> t)
                                         (cmd \<mapsto> HandlerWithMW hdl middleware))\<rparr>))"
  using assms
  by (cases mux) (simp add: Handle_def Lock_def Unlock_def Let_def split: option.splits)

lemma Handle_lock_free_lookup:
  assumes "\<not> writer (mux_mu mux)" and "readers (mux_mu mux) = 0"
    and "lookup (mux_m mux) cmd = None"
  shows "\<exists>mux'. Handle mux cmd (Some hdl) middleware = Returns mux'
    \<and> lookup (mux_m mux') cmd = Some (HandlerWithMW hdl middleware)"
  using assms by (simp add: Handle_lock_free lookup_def)

lemma Handle_read_locked:
  assumes "0 < readers (mux_mu mux)"
  shows "Handle mux cmd handler middleware = Blocks mux"
  using assms by (simp add: Handle_def Lock_def)

text \<open>
  Claim C8 (the code departs from it). After \<open>ServeQRPC\<close> has dispatched a request whose
  command has no handler, the read lock it took is still held, and \<open>Handle\<close> for that
  command and a handler that is not \<open>nil\<close> neither panics nor registers the handler: it
  blocks in \<open>mux.mu.Lock()\<close>.
\<close>

theorem Handle_blocks_after_unregistered_dispatch:
  "ServeQRPC fresh_mux (0 :: nat) unregistered_request []
      = Returns (mux_after_miss, Close unregistered_request, [])
    \<and> Handle mux_after_miss 7 (Some 1) [] = Blocks mux_after_miss"
  by (simp add: ServeQRPC_def Handle_def fresh_mux_def NewServeMux_def mux_after_miss_def
      unregistered_request_def RLock_def Lock_def lookup_def Close_def)

text \<open>
  Claim C10. For a request whose command has no registered handler, \<open>ServeQRPC\<close> returns
  with the request frame closed, the list of handler calls as it was (no handler was
  invoked) and the handler table of the mux unchanged. (The mux it leaves has one more
  reader on its lock than the one it found: the read lock is still held.)
\<close>

theorem ServeQRPC_unregistered_cmd:
  assumes "\<not> writer (mux_mu mux)" and "lookup (mux_m mux) (Cmd (frame r)) = None"
  shows "\<exists>mux'. ServeQRPC mux w r calls = Returns (mux', r\<lparr>closed := True\<rparr>, calls)
    \<and> mux_m mux' = mux_m mux
    \<and> mux_mu mux' = (mux_mu mux)\<lparr>readers := readers (mux_mu mux) + 1\<rparr>"
proof -
  let ?mux' = "mux\<lparr>mux_mu := (mux_mu mux)\<lparr>readers := readers (mux_mu mux) + 1\<rparr>\<rparr>"
  have "ServeQRPC mux w r calls = Returns (?mux', r\<lparr>closed := True\<rparr>, calls)"
    using assms by (simp add: ServeQRPC_def RLock_def Close_def)
  moreover have "mux_m ?mux' = mux_m mux"
    and "mux_mu ?mux' = (mux_mu mux)\<lparr>readers := readers (mux_mu mux) + 1\<rparr>"
    by simp_all
  ultimately show ?thesis by blast
qed

theorem ServeQRPC_unregistered_cmd_witness:
  "\<not> writer (mux_mu fresh_mux)
    \<and> lookup (mux_m fresh_mux) (Cmd (frame unregistered_request)) = None
    \<and> (\<exists>mux'. ServeQRPC fresh_mux (5 :: nat) unregistered_request []
          = Returns (mux', unregistered_request\<lparr>closed := True\<rparr>, [])
        \<and> mux_m mux' = mux_m fresh_mux
        \<and> mux_mu mux' = (mux_mu fresh_mux)\<lparr>readers := readers (mux_mu fresh_mux) + 1\<rparr>)"
proof -
  have free: "\<not> writer (mux_mu fresh_mux)"
    by (simp add: fresh_mux_def NewServeMux_def)
  have miss: "lookup (mux_m fresh_mux) (Cmd (frame unregistered_request)) = None"
    by (simp add: fresh_mux_def NewServeMux_def lookup_def)
  from free miss ServeQRPC_unregistered_cmd [OF free miss, of "5 :: nat" "[]"]
  show ?thesis by (intro conjI)
qed

subsection \<open>Shutdown callbacks\<close>

lemma OnShutdown_before_shutdown:
  assumes "\<not> mu srv" and "\<not> srv_done srv"
  shows "OnShutdown srv f = Returns (srv\<lparr>shutdownFunc := shutdownFunc srv @ [f]\<rparr>)"
  using assms by (cases srv) (simp add: OnShutdown_def Mutex_Lock_def Mutex_Unlock_def)

lemma OnShutdown_when_done:
  assumes "\<not> mu srv" and "srv_done srv"
  shows "OnShutdown srv f =
    Aborts FatalUnlockOfUnlockedMutex
      (srv\<lparr>shutdownCalls := shutdownCalls srv @ [f], shutdownFunc := shutdownFunc srv @ [f]\<rparr>)"
  using assms by (cases srv) (simp add: OnShutdown_def Mutex_Lock_def Mutex_Unlock_def)

text \<open>
  Claim C7 (the code departs from it). On a server that has shut down, \<open>OnShutdown(f)\<close>
  unlocks the mutex, calls \<open>f\<close>, appends \<open>f\<close> and then unlocks the mutex a second time:
  the call does not return, it ends in the fatal error of unlocking an unlocked mutex.
\<close>

theorem OnShutdown_after_shutdown_is_fatal:
  "OnShutdown shut_down_server 1 =
     Aborts FatalUnlockOfUnlockedMutex
       (shut_down_server\<lparr>shutdownCalls := [1], shutdownFunc := [1]\<rparr>)"
  by (simp add: OnShutdown_def Mutex_Lock_def Mutex_Unlock_def shut_down_server_def)

subsection \<open>The accept path\<close>

text \<open>
  Claim C9, as amended. \<open>tcpKeepAliveListener.Accept\<close> ignores what \<open>SetKeepAlive\<close> and
  \<open>SetKeepAlivePeriod\<close> return. It reports an error exactly when the embedded listener
  does or when the accepted connection is no \<open>TCPConn\<close>
  (\<open>ErrListenerAcceptReturnType\<close>); a connection returned with an error is not handed to
  \<open>newConn\<close> by \<open>Serve\<close>. An accepted \<open>TCPConn\<close> is returned without error whether or not
  the keep-alive calls failed, and \<open>Serve\<close> starts serving it.
\<close>

theorem Accept_ignores_keepalive_failure:
  "snd (Accept (c, e)) =
     (case e of
        Some err \<Rightarrow> Some err
      | None \<Rightarrow>
          (case c of
             None \<Rightarrow> Some ErrListenerAcceptReturnType
           | Some tc \<Rightarrow> if isTCPConn tc then None else Some ErrListenerAcceptReturnType))
    \<and> (snd (Accept (c, e)) \<noteq> None \<longrightarrow>
          (\<forall>rw. Serve_iteration doneClosed tempDelay (Accept (c, e)) \<noteq> ServeNewConn rw))
    \<and> (e = None \<and> c = Some tc \<and> isTCPConn tc \<longrightarrow>
          Accept (c, e) =
            (Some (tc\<lparr>keepAlive := (if keepAliveFails tc then keepAlive tc else True),
                      keepAlivePeriod := (if keepAlivePeriodFails tc then keepAlivePeriod tc
                                          else 20 * Second)\<rparr>), None)
          \<and> Serve_iteration doneClosed tempDelay (Accept (c, e)) =
              ServeNewConn (fst (Accept (c, e))))"
proof (intro conjI impI)
  show "snd (Accept (c, e)) =
     (case e of
        Some err \<Rightarrow> Some err
      | None \<Rightarrow>
          (case c of
             None \<Rightarrow> Some ErrListenerAcceptReturnType
           | Some tc \<Rightarrow> if isTCPConn tc then None else Some ErrListenerAcceptReturnType))"
    by (simp add: Accept_def Let_def split: option.splits)
next
  assume "snd (Accept (c, e)) \<noteq> None"
  then obtain rw err where "Accept (c, e) = (rw, Some err)"
    by (cases "Accept (c, e)") auto
  then show "\<forall>rw. Serve_iteration doneClosed tempDelay (Accept (c, e)) \<noteq> ServeNewConn rw"
    by (simp add: Serve_iteration_def Let_def)
next
  assume a: "e = None \<and> c = Some tc \<and> isTCPConn tc"
  then show "Accept (c, e) =
      (Some (tc\<lparr>keepAlive := (if keepAliveFails tc then keepAlive tc else True),
                keepAlivePeriod := (if keepAlivePeriodFails tc then keepAlivePeriod tc
                                    else 20 * Second)\<rparr>), None)"
    by (cases tc) (simp add: Accept_def SetKeepAlive_def SetKeepAlivePeriod_def Second_def)
  from a show "Serve_iteration doneClosed tempDelay (Accept (c, e)) =
      ServeNewConn (fst (Accept (c, e)))"
    by (simp add: Accept_def Serve_iteration_def Let_def)
qed

theorem Accept_ignores_keepalive_failure_witness:
  "snd (Accept (Some foreign_socket, None)) = Some ErrListenerAcceptReturnType
    \<and> snd (Accept (Some foreign_socket, None)) \<noteq> None
    \<and> (\<forall>rw. Serve_iteration False 0 (Accept (Some foreign_socket, None)) \<noteq> ServeNewConn rw)
    \<and> isTCPConn stubborn_socket
    \<and> Accept (Some stubborn_socket, None) = (Some stubborn_socket, None)
    \<and> Serve_iteration False 0 (Accept (Some stubborn_socket, None)) = ServeNewConn (Some stubborn_socket)"
proof -
  have tcp: "isTCPConn stubborn_socket" and no_tcp: "\<not> isTCPConn foreign_socket"
    by (simp_all add: stubborn_socket_def foreign_socket_def)
  have "snd (Accept (Some foreign_socket, None)) =
      (case None :: accept_error option of
         Some err \<Rightarrow> Some err
       | None \<Rightarrow>
           (case Some foreign_socket of
              None \<Rightarrow> Some ErrListenerAcceptReturnType
            | Some tc \<Rightarrow> if isTCPConn tc then None else Some ErrListenerAcceptReturnType))"
    using Accept_ignores_keepalive_failure [of "Some foreign_socket" None False 0 foreign_socket]
    by blast
  with no_tcp have err: "snd (Accept (Some foreign_socket, None)) = Some ErrListenerAcceptReturnType"
    by simp
  then have err': "snd (Accept (Some foreign_socket, None)) \<noteq> None"
    by simp
  with Accept_ignores_keepalive_failure [of "Some foreign_socket" None False 0 foreign_socket]
  have not_served: "\<forall>rw. Serve_iteration False 0 (Accept (Some foreign_socket, None)) \<noteq> ServeNewConn rw"
    by blast
  have same: "stubborn_socket\<lparr>keepAlive := (if keepAliveFails stubborn_socket
          then keepAlive stubborn_socket else True),
        keepAlivePeriod := (if keepAlivePeriodFails stubborn_socket
          then keepAlivePeriod stubborn_socket else 20 * Second)\<rparr> = stubborn_socket"
    by (simp add: stubborn_socket_def)
  from Accept_ignores_keepalive_failure [of "Some stubborn_socket" None False 0 stubborn_socket] tcp
  have "Accept (Some stubborn_socket, None) =
      (Some (stubborn_socket\<lparr>keepAlive := (if keepAliveFails stubborn_socket
          then keepAlive stubborn_socket else True),
        keepAlivePeriod := (if keepAlivePeriodFails stubborn_socket
          then keepAlivePeriod stubborn_socket else 20 * Second)\<rparr>), None)"
    and served: "Serve_iteration False 0 (Accept (Some stubborn_socket, None)) =
      ServeNewConn (fst (Accept (Some stubborn_socket, None)))"
    by blast+
  then have acc: "Accept (Some stubborn_socket, None) = (Some stubborn_socket, None)"
    by (simp only: same)
  from served have "Serve_iteration False 0 (Accept (Some stubborn_socket, None)) =
      ServeNewConn (Some stubborn_socket)"
    by (simp only: acc fst_conv)
  with err err' not_served tcp acc show ?thesis by blast
qed

text \<open>
  The claim as stated fails: on the socket whose keep-alive calls both fail, \<open>Accept\<close>
  returns the socket without error, and \<open>Serve\<close> goes on to serve it.
\<close>

theorem Accept_keepalive_failure_counterexample:
  "keepAliveFails stubborn_socket
    \<and> Accept (Some stubborn_socket, None) = (Some stubborn_socket, None)
    \<and> Serve_iteration False 0 (Accept (Some stubborn_socket, None)) = ServeNewConn (Some stubborn_socket)"
  by (simp add: Accept_def SetKeepAlive_def SetKeepAlivePeriod_def Serve_iteration_def
      stubborn_socket_def)

subsection \<open>The connection registry\<close>

lemma untrack_first:
  assumes "untrackFlag (conns srv sc) = 0" and "\<not> untrackedCh (conns srv sc)"
  shows "untrack srv sc kicked =
    Returns ((True, sc),
      srv\<lparr>id2Conn := (if conn_id (conns srv sc) = [] then id2Conn srv
                       else (id2Conn srv)(idx (conns srv sc) :=
                              (id2Conn srv (idx (conns srv sc)))(conn_id (conns srv sc) := None))),
           activeConn := (activeConn srv)(idx (conns srv sc) := activeConn srv (idx (conns srv sc)) - {sc}),
           conns := (conns srv)(sc := (conns srv sc)\<lparr>untrackFlag := 1, untrackedCh := True\<rparr>),
           kickCalls := (if kicked \<and> OnKickCB (bindings srv (idx (conns srv sc)))
                         then kickCalls srv @ [sc] else kickCalls srv)\<rparr>)"
  using assms by (cases srv) (simp add: untrack_def Let_def)

lemma untrack_again:
  assumes "untrackFlag (conns srv sc) \<noteq> 0"
  shows "untrack srv sc kicked = Returns ((False, sc), srv)"
  using assms by (simp add: untrack_def)

text \<open>
  Claim C6. On a connection whose flag is still 0 (and whose channel is therefore still
  open), \<open>untrack\<close> returns \<open>true\<close> with the connection's channel, and the server it
  leaves has the id of the connection removed from \<open>id2Conn\<close> (when the id is not empty),
  the connection removed from \<open>activeConn\<close>, the kick callback called with the
  connection's writer when \<open>kicked\<close> holds and the binding has one, and the channel
  closed. Every later call on that connection, whatever its \<open>kicked\<close>, returns \<open>false\<close>
  with the same channel, which is closed, and leaves the server exactly as it found it:
  the cleanup runs once.
\<close>

theorem untrack_cleans_up_once:
  assumes "untrackFlag (conns srv sc) = 0" and "\<not> untrackedCh (conns srv sc)"
  shows "\<exists>srv1. untrack srv sc kicked = Returns ((True, sc), srv1)
    \<and> id2Conn srv1 =
        (if conn_id (conns srv sc) = [] then id2Conn srv
         else (id2Conn srv)(idx (conns srv sc) :=
                (id2Conn srv (idx (conns srv sc)))(conn_id (conns srv sc) := None)))
    \<and> activeConn srv1 =
        (activeConn srv)(idx (conns srv sc) := activeConn srv (idx (conns srv sc)) - {sc})
    \<and> kickCalls srv1 =
        (if kicked \<and> OnKickCB (bindings srv (idx (conns srv sc)))
         then kickCalls srv @ [sc] else kickCalls srv)
    \<and> conns srv1 = (conns srv)(sc := (conns srv sc)\<lparr>untrackFlag := 1, untrackedCh := True\<rparr>)
    \<and> untrackedCh (conns srv1 sc)
    \<and> (\<forall>kicked'. untrack srv1 sc kicked' = Returns ((False, sc), srv1))"
proof -
  let ?srv1 = "srv\<lparr>id2Conn := (if conn_id (conns srv sc) = [] then id2Conn srv
                       else (id2Conn srv)(idx (conns srv sc) :=
                              (id2Conn srv (idx (conns srv sc)))(conn_id (conns srv sc) := None))),
           activeConn := (activeConn srv)(idx (conns srv sc) := activeConn srv (idx (conns srv sc)) - {sc}),
           conns := (conns srv)(sc := (conns srv sc)\<lparr>untrackFlag := 1, untrackedCh := True\<rparr>),
           kickCalls := (if kicked \<and> OnKickCB (bindings srv (idx (conns srv sc)))
                         then kickCalls srv @ [sc] else kickCalls srv)\<rparr>"
  have first: "untrack srv sc kicked = Returns ((True, sc), ?srv1)"
    using assms by (rule untrack_first)
  have "untrackFlag (conns ?srv1 sc) \<noteq> 0" by simp
  then have again: "untrack ?srv1 sc kicked' = Returns ((False, sc), ?srv1)" for kicked'
    by (rule untrack_again)
  have "id2Conn ?srv1 =
        (if conn_id (conns srv sc) = [] then id2Conn srv
         else (id2Conn srv)(idx (conns srv sc) :=
                (id2Conn srv (idx (conns srv sc)))(conn_id (conns srv sc) := None)))"
    and "activeConn ?srv1 =
        (activeConn srv)(idx (conns srv sc) := activeConn srv (idx (conns srv sc)) - {sc})"
    and "kickCalls ?srv1 =
        (if kicked \<and> OnKickCB (bindings srv (idx (conns srv sc)))
         then kickCalls srv @ [sc] else kickCalls srv)"
    and "conns ?srv1 = (conns srv)(sc := (conns srv sc)\<lparr>untrackFlag := 1, untrackedCh := True\<rparr>)"
    and "untrackedCh (conns ?srv1 sc)"
    by simp_all
  with first again show ?thesis by blast
qed

theorem untrack_cleans_up_once_witness:
  "untrackFlag (conns kick_server 1) = 0 \<and> \<not> untrackedCh (conns kick_server 1)
    \<and> (\<exists>srv1. untrack kick_server 1 True = Returns ((True, 1), srv1)
      \<and> id2Conn srv1 0 ''u1'' = None
      \<and> activeConn srv1 0 = {2}
      \<and> kickCalls srv1 = [1]
      \<and> untrackedCh (conns srv1 1)
      \<and> untrack srv1 1 False = Returns ((False, 1), srv1))"
proof -
  have flag: "untrackFlag (conns kick_server 1) = 0"
    and ch: "\<not> untrackedCh (conns kick_server 1)"
    by (simp_all add: kick_server_def u1_conn_def)
  from untrack_cleans_up_once [OF flag ch, of True]
  obtain srv1 where first: "untrack kick_server 1 True = Returns ((True, 1), srv1)"
    and ids: "id2Conn srv1 =
        (if conn_id (conns kick_server 1) = [] then id2Conn kick_server
         else (id2Conn kick_server)(idx (conns kick_server 1) :=
                (id2Conn kick_server (idx (conns kick_server 1)))(conn_id (conns kick_server 1) := None)))"
    and act: "activeConn srv1 =
        (activeConn kick_server)(idx (conns kick_server 1) :=
           activeConn kick_server (idx (conns kick_server 1)) - {1})"
    and calls: "kickCalls srv1 =
        (if True \<and> OnKickCB (bindings kick_server (idx (conns kick_server 1)))
         then kickCalls kick_server @ [1] else kickCalls kick_server)"
    and closed: "untrackedCh (conns srv1 1)"
    and again: "\<forall>kicked'. untrack srv1 1 kicked' = Returns ((False, 1), srv1)"
    by blast
  have "id2Conn srv1 0 ''u1'' = None"
    by (simp add: ids kick_server_def u1_conn_def)
  moreover have "activeConn srv1 0 = {2}"
    by (auto simp add: act kick_server_def u1_conn_def)
  moreover have "kickCalls srv1 = [1]"
    by (simp add: calls kick_server_def u1_conn_def)
  ultimately show ?thesis using flag ch first closed again by blast
qed

text \<open>
  What \<open>untrack\<close> leaves alone, and the turns of the loop of \<open>bindID\<close>.
\<close>

lemma untrack_keeps_flags:
  assumes "untrack srv vsc kicked = Returns (res, srv1)"
  shows "untrackFlag (conns srv sc) \<noteq> 0 \<longrightarrow> untrackFlag (conns srv1 sc) \<noteq> 0"
    and "untrackedCh (conns srv sc) \<longrightarrow> untrackedCh (conns srv1 sc)"
  using assms by (auto simp: untrack_def Let_def split: if_splits)









text \<open>
  The loop does not end when the holder of the id has been untracked before and is still
  in the table: each turn finds it again.
\<close>

lemma bindID_check_loops:
  assumes "bindID_check srv ko sc i ident kick = Some out"
  shows "\<not> (\<exists>vsc. id2Conn srv i ident = Some vsc \<and> vsc \<noteq> sc
    \<and> untrackFlag (conns srv vsc) \<noteq> 0 \<and> untrackedCh (conns srv vsc))"
  apply (rule bindID_check.raw_induct [where P = "\<lambda>srv ko sc i ident kick out.
      \<not> (\<exists>vsc. id2Conn srv i ident = Some vsc \<and> vsc \<noteq> sc
        \<and> untrackFlag (conns srv vsc) \<noteq> 0 \<and> untrackedCh (conns srv vsc))", OF _ assms])
  subgoal premises prems for loop srv ko sc i ident kick out
  proof
    assume "\<exists>vsc. id2Conn srv i ident = Some vsc \<and> vsc \<noteq> sc
      \<and> untrackFlag (conns srv vsc) \<noteq> 0 \<and> untrackedCh (conns srv vsc)"
    then obtain vsc where holder: "id2Conn srv i ident = Some vsc" and other: "vsc \<noteq> sc"
      and flag: "untrackFlag (conns srv vsc) \<noteq> 0" and ch: "untrackedCh (conns srv vsc)"
      by blast
    let ?srv3 = "if CounterMetric (bindings (closeUntracked srv vsc) i)
      then (closeUntracked srv vsc)\<lparr>kickoffCount := kickoffCount (closeUntracked srv vsc) + 1\<rparr>
      else closeUntracked srv vsc"
    from prems(2) holder other flag ch
    have rec: "loop ?srv3 (ko + 1) sc i ident True = Some out"
      by (simp add: untrack_again Let_def)
    have "id2Conn ?srv3 i ident = Some vsc \<and> vsc \<noteq> sc
      \<and> untrackFlag (conns ?srv3 vsc) \<noteq> 0 \<and> untrackedCh (conns ?srv3 vsc)"
      using holder other flag ch by (simp add: closeUntracked_def)
    with prems(1) [OF rec] show False by blast
  qed
  done

lemma bindID_never_returns:
  assumes "id2Conn srv (idx (conns srv sc)) ident = Some vsc" and "vsc \<noteq> sc"
    and "untrackFlag (conns srv vsc) \<noteq> 0" and "untrackedCh (conns srv vsc)"
  shows "bindID srv ko sc ident = None"
proof (cases "bindID srv ko sc ident")
  case None
  then show ?thesis .
next
  case (Some out)
  then have "bindID_check srv ko sc (idx (conns srv sc)) ident False = Some out"
    by (simp only: bindID_def)
  from bindID_check_loops [OF this] assms show ?thesis by blast
qed



end
